theory Spec2Isabelle
  imports Complex_Main "HOL-Library.Sublist"
begin

section \<open>Python strings\<close>

text \<open>
  Strings are modelled as ASCII text (\<open>char list\<close>). The operations below are the
  \<open>str\<close> methods the program calls, restricted to ASCII: case mapping touches the
  letters A-Z and a-z only, and white space is what \<open>str.isspace\<close> accepts below
  code point 128 (TAB, LF, VT, FF, CR, the separators 28-31 and the blank).
\<close>

definition is_upper_char :: "char \<Rightarrow> bool" where
  "is_upper_char c = (let n = (of_char c :: nat) in 65 \<le> n \<and> n \<le> 90)"

definition is_lower_char :: "char \<Rightarrow> bool" where
  "is_lower_char c = (let n = (of_char c :: nat) in 97 \<le> n \<and> n \<le> 122)"

definition is_digit_char :: "char \<Rightarrow> bool" where
  "is_digit_char c = (let n = (of_char c :: nat) in 48 \<le> n \<and> n \<le> 57)"

definition isspace :: "char \<Rightarrow> bool" where
  "isspace c = (let n = (of_char c :: nat) in (9 \<le> n \<and> n \<le> 13) \<or> (28 \<le> n \<and> n \<le> 32))"

definition lower_char :: "char \<Rightarrow> char" where
  "lower_char c = (if is_upper_char c then char_of ((of_char c :: nat) + 32) else c)"

definition upper_char :: "char \<Rightarrow> char" where
  "upper_char c = (if is_lower_char c then char_of ((of_char c :: nat) - 32) else c)"

definition lower :: "string \<Rightarrow> string" where
  "lower s = map lower_char s"

definition upper :: "string \<Rightarrow> string" where
  "upper s = map upper_char s"

text \<open>\<open>s.strip()\<close> and \<open>s.strip(chars)\<close>.\<close>

definition strip :: "string \<Rightarrow> string" where
  "strip s = rev (dropWhile isspace (rev (dropWhile isspace s)))"

definition strip_chars :: "string \<Rightarrow> string \<Rightarrow> string" where
  "strip_chars cs s =
     rev (dropWhile (\<lambda>c. c \<in> set cs) (rev (dropWhile (\<lambda>c. c \<in> set cs) s)))"

text \<open>\<open>p in s\<close> on two strings: \<open>p\<close> occurs in \<open>s\<close> as a contiguous substring.\<close>

fun str_in :: "string \<Rightarrow> string \<Rightarrow> bool" where
  "str_in p [] = (p = [])"
| "str_in p (c # cs) = (prefix p (c # cs) \<or> str_in p cs)"

text \<open>
  \<open>s.isupper()\<close> and \<open>s.islower()\<close>: there is a cased character and no cased character
  of the other case.
\<close>

definition str_isupper :: "string \<Rightarrow> bool" where
  "str_isupper s = (list_ex is_upper_char s \<and> \<not> list_ex is_lower_char s)"

definition str_islower :: "string \<Rightarrow> bool" where
  "str_islower s = (list_ex is_lower_char s \<and> \<not> list_ex is_upper_char s)"

text \<open>
  \<open>s.title()\<close>: a cased character is upper-cased when the character before it is not
  cased, and lower-cased otherwise. The flag is CPython's \<open>previous_is_cased\<close>.
\<close>

fun title_from :: "bool \<Rightarrow> string \<Rightarrow> string" where
  "title_from previous_is_cased [] = []"
| "title_from previous_is_cased (c # cs) =
     (if is_lower_char c \<or> is_upper_char c
      then (if previous_is_cased then lower_char c else upper_char c) # title_from True cs
      else c # title_from False cs)"

definition title :: "string \<Rightarrow> string" where
  "title s = title_from False s"

text \<open>
  \<open>re.sub(r'\s+', ' ', s)\<close>: every maximal run of white space becomes one blank. The
  flag says that the character before was white space, so the run has been replaced.
\<close>

fun collapse_from :: "bool \<Rightarrow> string \<Rightarrow> string" where
  "collapse_from in_run [] = []"
| "collapse_from in_run (c # cs) =
     (if isspace c
      then (if in_run then collapse_from True cs else CHR '' '' # collapse_from True cs)
      else c # collapse_from False cs)"

definition collapse_whitespace :: "string \<Rightarrow> string" where
  "collapse_whitespace s = collapse_from False s"


section \<open>Regular expressions (Python's re)\<close>

text \<open>
  The patterns of the program use literals, character classes, the dot, greedy and lazy
  repetition, alternation, one capture group, \<open>^\<close>, \<open>$\<close> and \<open>\b\<close>. A pattern is a
  value of \<open>re\<close>; \<open>matches\<close> is a backtracking matcher that returns every way the
  pattern can match at the current position, in the order in which Python's engine
  tries them, so the head of the list is Python's match.
\<close>

datatype re =
    Atom "char \<Rightarrow> bool"
  | Eps
  | Seq re re
  | Alt re re
  | Star re
  | LazyStar re
  | Group re
  | WordB
  | Bol
  | Eol

text \<open>
  The state of a match: the character before the current position (\<open>None\<close> at the start
  of the string), the text still to be read, and the text captured by the group.
\<close>

record mstate =
  prev :: "char option"
  rest :: string
  cap :: "string option"

definition is_word_char :: "char \<Rightarrow> bool" where
  "is_word_char c = (is_upper_char c \<or> is_lower_char c \<or> is_digit_char c \<or> c = CHR ''_'')"

definition word_before :: "mstate \<Rightarrow> bool" where
  "word_before m = (case prev m of None \<Rightarrow> False | Some c \<Rightarrow> is_word_char c)"

definition word_after :: "mstate \<Rightarrow> bool" where
  "word_after m = (case rest m of [] \<Rightarrow> False | c # cs \<Rightarrow> is_word_char c)"

text \<open>
  Repetition. The bound is the length of the text left; an iteration that reads
  nothing is dropped, as Python's engine does to stay out of an endless loop. The
  greedy form tries one more iteration before it tries to stop, the lazy form stops
  first.
\<close>

primrec star_greedy :: "nat \<Rightarrow> (mstate \<Rightarrow> mstate list) \<Rightarrow> mstate \<Rightarrow> mstate list" where
  "star_greedy 0 step m = [m]"
| "star_greedy (Suc n) step m =
     concat (map (star_greedy n step)
               (filter (\<lambda>m'. length (rest m') < length (rest m)) (step m))) @ [m]"

primrec star_lazy :: "nat \<Rightarrow> (mstate \<Rightarrow> mstate list) \<Rightarrow> mstate \<Rightarrow> mstate list" where
  "star_lazy 0 step m = [m]"
| "star_lazy (Suc n) step m =
     m # concat (map (star_lazy n step)
                   (filter (\<lambda>m'. length (rest m') < length (rest m)) (step m)))"

primrec matches :: "re \<Rightarrow> mstate \<Rightarrow> mstate list" where
  "matches (Atom p) = (\<lambda>m.
     (case rest m of
        [] \<Rightarrow> []
      | c # cs \<Rightarrow> (if p c then [m\<lparr>prev := Some c, rest := cs\<rparr>] else [])))"
| "matches Eps = (\<lambda>m. [m])"
| "matches (Seq r1 r2) = (\<lambda>m. concat (map (matches r2) (matches r1 m)))"
| "matches (Alt r1 r2) = (\<lambda>m. matches r1 m @ matches r2 m)"
| "matches (Star r) = (\<lambda>m. star_greedy (length (rest m)) (matches r) m)"
| "matches (LazyStar r) = (\<lambda>m. star_lazy (length (rest m)) (matches r) m)"
| "matches (Group r) = (\<lambda>m.
     map (\<lambda>m'. m'\<lparr>cap := Some (take (length (rest m) - length (rest m')) (rest m))\<rparr>)
         (matches r m))"
| "matches WordB = (\<lambda>m. if word_before m \<noteq> word_after m then [m] else [])"
| "matches Bol = (\<lambda>m. if prev m = None then [m] else [])"
| "matches Eol = (\<lambda>m. if rest m = [] \<or> rest m = [CHR 0x0A] then [m] else [])"

text \<open>
  \<open>re.match\<close> tries the pattern at the start of the string only; \<open>re.search\<close> tries
  every start position from left to right and returns the first match.
\<close>

definition re_match :: "re \<Rightarrow> string \<Rightarrow> mstate option" where
  "re_match r s =
     (case matches r \<lparr>prev = None, rest = s, cap = None\<rparr> of [] \<Rightarrow> None | m # ms \<Rightarrow> Some m)"

fun search_from :: "re \<Rightarrow> char option \<Rightarrow> string \<Rightarrow> mstate option" where
  "search_from r previous [] =
     (case matches r \<lparr>prev = previous, rest = [], cap = None\<rparr> of
        [] \<Rightarrow> None
      | m # ms \<Rightarrow> Some m)"
| "search_from r previous (c # cs) =
     (case matches r \<lparr>prev = previous, rest = c # cs, cap = None\<rparr> of
        [] \<Rightarrow> search_from r (Some c) cs
      | m # ms \<Rightarrow> Some m)"

definition re_search :: "re \<Rightarrow> string \<Rightarrow> mstate option" where
  "re_search r s = search_from r None s"

text \<open>Pattern syntax: \<open>abc\<close>, \<open>[a-z]\<close>, \<open>.\<close>, \<open>\d\<close>, \<open>\s\<close>, \<open>r+\<close>, \<open>r+?\<close>, \<open>r{n}\<close>, \<open>r|s|t\<close>.\<close>

definition lit :: "char \<Rightarrow> re" where
  "lit a = Atom (\<lambda>c. c = a)"

definition char_range :: "char \<Rightarrow> char \<Rightarrow> re" where
  "char_range a b = Atom (\<lambda>c. (of_char a :: nat) \<le> of_char c \<and> (of_char c :: nat) \<le> of_char b)"

definition dot :: re where
  "dot = Atom (\<lambda>c. c \<noteq> CHR 0x0A)"

definition digit :: re where
  "digit = Atom is_digit_char"

definition space :: re where
  "space = Atom isspace"

definition seqs :: "re list \<Rightarrow> re" where
  "seqs rs = foldr Seq rs Eps"

definition alts :: "re \<Rightarrow> re list \<Rightarrow> re" where
  "alts r rs = foldl Alt r rs"

definition text_re :: "string \<Rightarrow> re" where
  "text_re s = seqs (map lit s)"

definition one_or_more :: "re \<Rightarrow> re" where
  "one_or_more r = Seq r (Star r)"

definition one_or_more_lazy :: "re \<Rightarrow> re" where
  "one_or_more_lazy r = Seq r (LazyStar r)"

definition repeated :: "nat \<Rightarrow> re \<Rightarrow> re" where
  "repeated n r = seqs (replicate n r)"

text \<open>
  \<open>re.IGNORECASE\<close>: a character matches an atom when it, its lower-case form or its
  upper-case form does.
\<close>

primrec ignorecase :: "re \<Rightarrow> re" where
  "ignorecase (Atom p) = Atom (\<lambda>c. p c \<or> p (lower_char c) \<or> p (upper_char c))"
| "ignorecase Eps = Eps"
| "ignorecase (Seq r1 r2) = Seq (ignorecase r1) (ignorecase r2)"
| "ignorecase (Alt r1 r2) = Alt (ignorecase r1) (ignorecase r2)"
| "ignorecase (Star r) = Star (ignorecase r)"
| "ignorecase (LazyStar r) = LazyStar (ignorecase r)"
| "ignorecase (Group r) = Group (ignorecase r)"
| "ignorecase WordB = WordB"
| "ignorecase Bol = Bol"
| "ignorecase Eol = Eol"


section \<open>DataCleaner (src/clean.py)\<close>

subsection \<open>Relation standardization\<close>

text \<open>
  The dictionary \<open>self.relation_standardization\<close>, in insertion order (the order in
  which \<open>items()\<close> yields its entries). Its keys are pairwise different.
\<close>

definition relation_standardization :: "(string \<times> string) list" where
  "relation_standardization =
    [(''acquired'', ''ACQUIRED''),
     (''acquisition'', ''ACQUIRED''),
     (''bought'', ''ACQUIRED''),
     (''purchased'', ''ACQUIRED''),
     (''invested in'', ''INVESTED_IN''),
     (''investment in'', ''INVESTED_IN''),
     (''funded'', ''INVESTED_IN''),
     (''launched'', ''LAUNCHED''),
     (''released'', ''LAUNCHED''),
     (''introduced'', ''LAUNCHED''),
     (''partnered with'', ''PARTNERED_WITH''),
     (''collaborated with'', ''PARTNERED_WITH''),
     (''ceo of'', ''CEO_OF''),
     (''chief executive officer of'', ''CEO_OF''),
     (''founded'', ''FOUNDED''),
     (''established'', ''FOUNDED''),
     (''created'', ''FOUNDED'')]"

text \<open>
  The loop \<open>for key, value in items: if key in relation_str: return value\<close>; \<open>None\<close>
  when the loop ends without returning.
\<close>

fun first_key_contained :: "(string \<times> string) list \<Rightarrow> string \<Rightarrow> string option" where
  "first_key_contained [] relation_str = None"
| "first_key_contained ((key, val) # items) relation_str =
     (if str_in key relation_str then Some val else first_key_contained items relation_str)"

text \<open>
  \<open>_standardize_relation\<close>. A cell of a data frame is \<open>None\<close> when it is missing
  (\<open>pd.isna\<close>), and \<open>Some s\<close> when it holds the string \<open>s\<close>.
\<close>

definition standardize_relation :: "string option \<Rightarrow> string" where
  "standardize_relation relation =
     (case relation of
        None \<Rightarrow> ''UNKNOWN''
      | Some r \<Rightarrow>
          (let relation_str = lower (strip r) in
           case map_of relation_standardization relation_str of
             Some canonical \<Rightarrow> canonical
           | None \<Rightarrow>
               (case first_key_contained relation_standardization relation_str of
                  Some canonical \<Rightarrow> canonical
                | None \<Rightarrow> upper relation_str)))"

subsection \<open>Entity names and entity types\<close>

text \<open>\<open>_clean_entity_name\<close>; the quote characters stripped are \<open>"\<close> and \<open>'\<close>.\<close>

definition clean_entity_name :: "string option \<Rightarrow> string" where
  "clean_entity_name entity =
     (case entity of
        None \<Rightarrow> []
      | Some e \<Rightarrow>
          (let entity_str = strip e;
               entity_str = collapse_whitespace entity_str;
               entity_str = strip_chars [CHR 0x22, CHR 0x27] entity_str
           in if str_isupper entity_str \<or> str_islower entity_str
              then title entity_str
              else entity_str))"

definition company_patterns :: "string list" where
  "company_patterns = [''Inc'', ''Corp'', ''Ltd'', ''LLC'', ''Co.'', ''Company'', ''Group'']"

text \<open>\<open>^[A-Z][a-z]+ [A-Z][a-z]+$\<close>\<close>

definition person_pattern :: re where
  "person_pattern =
     seqs [Bol, char_range CHR ''A'' CHR ''Z'', one_or_more (char_range CHR ''a'' CHR ''z''), lit CHR '' '',
           char_range CHR ''A'' CHR ''Z'', one_or_more (char_range CHR ''a'' CHR ''z''), Eol]"

text \<open>\<open>\d{4}\<close> and \<open>\b(Jan|Feb|Mar|Apr|May|Jun|Jul|Aug|Sep|Oct|Nov|Dec)[a-z]* \d{4}\b\<close>\<close>

definition date_patterns :: "re list" where
  "date_patterns =
     [repeated 4 digit,
      seqs [WordB,
            Group (alts (text_re ''Jan'')
                     [text_re ''Feb'', text_re ''Mar'', text_re ''Apr'', text_re ''May'',
                      text_re ''Jun'', text_re ''Jul'', text_re ''Aug'', text_re ''Sep'',
                      text_re ''Oct'', text_re ''Nov'', text_re ''Dec'']),
            Star (char_range CHR ''a'' CHR ''z''), lit CHR '' '', repeated 4 digit, WordB]]"

text \<open>\<open>\$\d+\<close>, \<open>\d+\s*(million|billion|trillion)\<close>, \<open>USD\<close> and \<open>EUR\<close>\<close>

definition currency_patterns :: "re list" where
  "currency_patterns =
     [seqs [lit CHR ''$'', one_or_more digit],
      seqs [one_or_more digit, Star space,
            Group (alts (text_re ''million'') [text_re ''billion'', text_re ''trillion''])],
      text_re ''USD'',
      text_re ''EUR'']"

text \<open>The four checks of \<open>_infer_entity_type\<close>, each as the code writes it.\<close>

definition company_check :: "string \<Rightarrow> bool" where
  "company_check entity_str = list_ex (\<lambda>pattern. str_in pattern entity_str) company_patterns"

definition person_check :: "string \<Rightarrow> bool" where
  "person_check entity_str = (re_match person_pattern entity_str \<noteq> None)"

definition date_check :: "string \<Rightarrow> bool" where
  "date_check entity_str = list_ex (\<lambda>pattern. re_search pattern entity_str \<noteq> None) date_patterns"

definition currency_check :: "string \<Rightarrow> bool" where
  "currency_check entity_str =
     list_ex (\<lambda>pattern. re_search (ignorecase pattern) entity_str \<noteq> None) currency_patterns"

definition infer_entity_type :: "string option \<Rightarrow> string" where
  "infer_entity_type entity =
     (case entity of
        None \<Rightarrow> ''UNKNOWN''
      | Some entity_str \<Rightarrow>
          (if company_check entity_str then ''COMPANY''
           else if person_check entity_str then ''PERSON''
           else if date_check entity_str then ''DATE''
           else if currency_check entity_str then ''CURRENCY''
           else ''ENTITY''))"

subsection \<open>Triplets, data frames and the configuration\<close>

text \<open>
  A raw triplet is a dictionary with the keys \<open>head\<close>, \<open>relation\<close> and \<open>tail\<close> (the
  extractor keeps a triplet only if it has all three) and, optionally, \<open>confidence\<close>,
  \<open>head_type\<close> and \<open>tail_type\<close>. For the three required keys a field is \<open>None\<close> when
  the value is null. For an optional key the dictionary may lack the key (\<open>Absent\<close>),
  have it with a null value, \<open>None\<close> or \<open>NaN\<close> (\<open>Null\<close>), or have it with a value. In
  a data frame a cell is missing (\<open>pd.isna\<close>) when it is \<open>Absent\<close> or \<open>Null\<close>.
  Confidences are numbers, compared as such.
\<close>

datatype 'a cell = Absent | Null | Value 'a

definition missing :: "'a cell \<Rightarrow> bool" where
  "missing c = (case c of Value v \<Rightarrow> False | _ \<Rightarrow> True)"

record triplet =
  head :: "string option"
  relation :: "string option"
  tail :: "string option"
  confidence :: "real cell"
  head_type :: "string cell"
  tail_type :: "string cell"

datatype column = Head | Relation | Tail | Confidence | Head_type | Tail_type

text \<open>A frame has its columns, taken here without their order, and its rows.\<close>

record frame =
  columns :: "column set"
  rows :: "triplet list"

text \<open>
  The dictionary \<open>{'head': h, 'relation': r, 'tail': t, 'confidence': c}\<close>, without the
  key \<open>confidence\<close> when \<open>c\<close> is \<open>Absent\<close>, and without type keys.
\<close>

definition raw_triplet :: "string \<Rightarrow> string \<Rightarrow> string \<Rightarrow> real cell \<Rightarrow> triplet" where
  "raw_triplet h r t c =
     \<lparr>head = Some h, relation = Some r, tail = Some t, confidence = c,
      head_type = Absent, tail_type = Absent\<rparr>"

text \<open>The parts of the configuration that the modelled code reads.\<close>

record config =
  confidence_threshold :: real
  relation_types :: "string list"
  llm_mode :: string

text \<open>
  \<open>pd.DataFrame(triplets)\<close>: one row for each dictionary and one column for each key
  that occurs in some dictionary, whatever its value is.
\<close>

definition DataFrame :: "triplet list \<Rightarrow> frame" where
  "DataFrame triplets =
     \<lparr>columns =
        (if triplets = [] then {}
         else {Head, Relation, Tail}
              \<union> (if list_ex (\<lambda>t. confidence t \<noteq> Absent) triplets then {Confidence} else {})
              \<union> (if list_ex (\<lambda>t. head_type t \<noteq> Absent) triplets then {Head_type} else {})
              \<union> (if list_ex (\<lambda>t. tail_type t \<noteq> Absent) triplets then {Tail_type} else {})),
      rows = triplets\<rparr>"

text \<open>\<open>df.empty\<close>: an axis of the frame has length 0.\<close>

definition empty :: "frame \<Rightarrow> bool" where
  "empty df = (columns df = {} \<or> rows df = [])"

definition has_column :: "frame \<Rightarrow> column \<Rightarrow> bool" where
  "has_column df c = (c \<in> columns df)"

subsection \<open>The steps of \<open>clean_triplets\<close>\<close>

text \<open>
  Step 1, \<open>df.drop_duplicates(subset=['head', 'relation', 'tail'])\<close>: a row is dropped
  when a row before it has the same three cells (missing cells count as equal).
\<close>

definition subset_key :: "triplet \<Rightarrow> string option \<times> string option \<times> string option" where
  "subset_key t = (head t, relation t, tail t)"

fun drop_seen ::
  "(string option \<times> string option \<times> string option) list \<Rightarrow> triplet list \<Rightarrow> triplet list" where
  "drop_seen seen [] = []"
| "drop_seen seen (t # ts) =
     (if subset_key t \<in> set seen then drop_seen seen ts
      else t # drop_seen (subset_key t # seen) ts)"

definition drop_duplicates :: "frame \<Rightarrow> frame" where
  "drop_duplicates df = df\<lparr>rows := drop_seen [] (rows df)\<rparr>"

text \<open>
  Step 2: \<open>df[df['confidence'] >= threshold]\<close> when the frame has the column; the
  comparison is false on a missing cell, be the key absent or the value null.
\<close>

definition confidence_ok :: "real \<Rightarrow> triplet \<Rightarrow> bool" where
  "confidence_ok threshold t =
     (case confidence t of Value c \<Rightarrow> threshold \<le> c | _ \<Rightarrow> False)"

definition filter_confidence :: "config \<Rightarrow> frame \<Rightarrow> frame" where
  "filter_confidence cfg df =
     (if has_column df Confidence
      then df\<lparr>rows := filter (confidence_ok (confidence_threshold cfg)) (rows df)\<rparr>
      else df)"

text \<open>Steps 3 and 4: the relation and the two entity names of every row are rewritten.\<close>

definition standardize_relations :: "frame \<Rightarrow> frame" where
  "standardize_relations df =
     df\<lparr>rows := map (\<lambda>t. t\<lparr>relation := Some (standardize_relation (relation t))\<rparr>) (rows df)\<rparr>"

definition clean_entity_names :: "frame \<Rightarrow> frame" where
  "clean_entity_names df =
     df\<lparr>rows := map (\<lambda>t. t\<lparr>head := Some (clean_entity_name (head t)),
                              tail := Some (clean_entity_name (tail t))\<rparr>) (rows df)\<rparr>"

text \<open>Steps 5 and 6: \<open>isin(valid_relations)\<close> and \<open>df['head'] != df['tail']\<close>.\<close>

definition relation_valid :: "string list \<Rightarrow> triplet \<Rightarrow> bool" where
  "relation_valid valid_relations t =
     (case relation t of None \<Rightarrow> False | Some r \<Rightarrow> r \<in> set valid_relations)"

definition remove_invalid_relations :: "config \<Rightarrow> frame \<Rightarrow> frame" where
  "remove_invalid_relations cfg df =
     df\<lparr>rows := filter (relation_valid (relation_types cfg)) (rows df)\<rparr>"

definition remove_self_references :: "frame \<Rightarrow> frame" where
  "remove_self_references df = df\<lparr>rows := filter (\<lambda>t. head t \<noteq> tail t) (rows df)\<rparr>"

text \<open>Step 7: a type column that the frame lacks is added, inferred from the names.\<close>

definition add_entity_types :: "frame \<Rightarrow> frame" where
  "add_entity_types df =
     (let df1 = (if has_column df Head_type then df
                 else \<lparr>columns = insert Head_type (columns df),
                       rows = map (\<lambda>t. t\<lparr>head_type := Value (infer_entity_type (head t))\<rparr>)
                                (rows df)\<rparr>)
      in if has_column df1 Tail_type then df1
         else \<lparr>columns = insert Tail_type (columns df1),
               rows = map (\<lambda>t. t\<lparr>tail_type := Value (infer_entity_type (tail t))\<rparr>)
                        (rows df1)\<rparr>)"

text \<open>
  Step 8, \<open>df.sort_values('confidence', ascending=False)\<close>: descending confidence, rows
  without a confidence last. Rows of equal confidence keep their order here; the
  library does not promise an order for them, and no property below depends on it.
\<close>

definition confidence_of :: "triplet \<Rightarrow> real" where
  "confidence_of t = (case confidence t of Value c \<Rightarrow> c | _ \<Rightarrow> 0)"

definition sort_values :: "frame \<Rightarrow> frame" where
  "sort_values df =
     df\<lparr>rows := sort_key (\<lambda>t. - confidence_of t)
                   (filter (\<lambda>t. \<not> missing (confidence t)) (rows df))
                 @ filter (\<lambda>t. missing (confidence t)) (rows df)\<rparr>"

definition sort_by_confidence :: "frame \<Rightarrow> frame" where
  "sort_by_confidence df = (if has_column df Confidence then sort_values df else df)"

text \<open>
  \<open>clean_triplets\<close>. The log messages are left out. With at least one triplet the
  frame has the three key columns, so the test \<open>df.empty\<close> of the code fails and
  \<open>drop_duplicates\<close> finds its columns.
\<close>

definition clean_triplets :: "config \<Rightarrow> triplet list \<Rightarrow> frame" where
  "clean_triplets cfg triplets =
     (if triplets = [] then \<lparr>columns = {}, rows = []\<rparr>
      else
        (let df = DataFrame triplets in
         if empty df then df
         else
           (let df = drop_duplicates df;
                df = filter_confidence cfg df;
                df = standardize_relations df;
                df = clean_entity_names df;
                df = remove_invalid_relations cfg df;
                df = remove_self_references df;
                df = add_entity_types df;
                df = sort_by_confidence df
            in df)))"

section \<open>Neo4jGraphBuilder (src/graph_builder.py)\<close>

subsection \<open>The graph store\<close>

text \<open>
  The store is the state that the builder changes through its session: the nodes with
  their labels and the properties \<open>name\<close> and \<open>type\<close>, the relationships of type
  \<open>RELATION\<close> with their properties, the uniqueness constraint on \<open>Entity.name\<close> and
  the indexes. A node is identified by its position in the list of nodes; nodes are
  only ever removed all at once.
\<close>

record node =
  node_labels :: "string list"
  node_name :: string
  node_type :: "string option"

record relationship =
  start_node :: nat
  end_node :: nat
  rel_type :: string
  rel_confidence :: "real option"
  rel_source :: string
  rel_created :: nat

record graph =
  nodes :: "node list"
  relationships :: "relationship list"
  unique_entity_name :: bool
  indexes :: "string list"

text \<open>The counts that \<open>get_graph_stats\<close> asks for: all nodes and all relationships.\<close>

definition total_nodes :: "graph \<Rightarrow> nat" where
  "total_nodes g = length (nodes g)"

definition total_relationships :: "graph \<Rightarrow> nat" where
  "total_relationships g = length (relationships g)"

datatype exn = KeyError string | DriverError string

text \<open>The statements that the builder sends to the store.\<close>

datatype statement =
    DetachDeleteAll
  | CreateUniqueConstraint
  | CreateIndex string
  | ImportTriplets "triplet list"

fun first_index :: "('a \<Rightarrow> bool) \<Rightarrow> 'a list \<Rightarrow> nat option" where
  "first_index P [] = None"
| "first_index P (x # xs) = (if P x then Some 0 else map_option Suc (first_index P xs))"

text \<open>
  \<open>MERGE (e:Entity {name: n})\<close> binds the node with the label \<open>Entity\<close> and the name \<open>n\<close>,
  and creates it when there is none. Under the uniqueness constraint, which the builder
  creates before it imports, at most one node matches; the model binds the first.
\<close>

definition match_entity :: "string \<Rightarrow> node \<Rightarrow> bool" where
  "match_entity n v = (''Entity'' \<in> set (node_labels v) \<and> node_name v = n)"

definition merge_entity :: "string \<Rightarrow> graph \<Rightarrow> nat \<times> graph" where
  "merge_entity n g =
     (case first_index (match_entity n) (nodes g) of
        Some i \<Rightarrow> (i, g)
      | None \<Rightarrow>
          (length (nodes g),
           g\<lparr>nodes := nodes g @ [\<lparr>node_labels = [''Entity''], node_name = n, node_type = None\<rparr>]\<rparr>))"

text \<open>\<open>SET e.type = t\<close> on the node bound to \<open>e\<close>.\<close>

definition set_type :: "nat \<Rightarrow> string \<Rightarrow> graph \<Rightarrow> graph" where
  "set_type i t g =
     (if i < length (nodes g)
      then g\<lparr>nodes := (nodes g)[i := (nodes g ! i)\<lparr>node_type := Some t\<rparr>]\<rparr>
      else g)"

text \<open>
  \<open>CALL apoc.create.addLabels(e, [e.type])\<close>: the value of the property \<open>type\<close> of the
  node, read at this point, becomes one of its labels. The property has been set when
  the call is reached.
\<close>

definition add_type_label :: "nat \<Rightarrow> graph \<Rightarrow> graph" where
  "add_type_label i g =
     (if i < length (nodes g)
      then (case node_type (nodes g ! i) of
              None \<Rightarrow> g
            | Some l \<Rightarrow>
                (if l \<in> set (node_labels (nodes g ! i)) then g
                 else g\<lparr>nodes := (nodes g)[i := (nodes g ! i)
                                   \<lparr>node_labels := node_labels (nodes g ! i) @ [l]\<rparr>]\<rparr>))
      else g)"

text \<open>
  \<open>MERGE (h)-[r:RELATION {type: t}]->(t)\<close> followed by \<open>SET\<close>: the relationships from the
  one node to the other with this \<open>type\<close> get the new confidence, source and creation
  time; when there is none, one is created with them.
\<close>

definition match_relationship :: "nat \<Rightarrow> string \<Rightarrow> nat \<Rightarrow> relationship \<Rightarrow> bool" where
  "match_relationship h r t e = (start_node e = h \<and> rel_type e = r \<and> end_node e = t)"

definition merge_relationship ::
  "nat \<Rightarrow> string \<Rightarrow> nat \<Rightarrow> real option \<Rightarrow> nat \<Rightarrow> graph \<Rightarrow> graph" where
  "merge_relationship h r t c now g =
     (if list_ex (match_relationship h r t) (relationships g)
      then g\<lparr>relationships :=
               map (\<lambda>e. if match_relationship h r t e
                         then e\<lparr>rel_confidence := c, rel_source := ''extracted'',
                                rel_created := now\<rparr>
                         else e)
                   (relationships g)\<rparr>
      else g\<lparr>relationships := relationships g @
               [\<lparr>start_node = h, end_node = t, rel_type = r, rel_confidence = c,
                 rel_source = ''extracted'', rel_created = now\<rparr>]\<rparr>)"

text \<open>The clauses of the import query for one element of \<open>$triplets\<close>, in their order.\<close>

definition merge_triplet ::
  "nat \<Rightarrow> string \<Rightarrow> string \<Rightarrow> string \<Rightarrow> string \<Rightarrow> string \<Rightarrow> real option \<Rightarrow> graph \<Rightarrow> graph" where
  "merge_triplet now h ht t tt r c g =
     (let (hd_node, g) = merge_entity h g;
          g = set_type hd_node ht g;
          (tl_node, g) = merge_entity t g;
          g = set_type tl_node tt g;
          g = add_type_label hd_node g;
          g = add_type_label tl_node g
      in merge_relationship hd_node r tl_node c now g)"

text \<open>
  \<open>UNWIND $triplets AS triplet ...\<close>: the elements are merged one after the other. The
  names, the relation and the two types have to be strings; on a missing value the
  statement fails. A canonical table has no missing value there. A missing confidence
  cell is read as it is in a column of numbers, as \<open>NaN\<close>, which \<open>float\<close> returns
  unchanged; the relationship then has no number (\<open>None\<close>) as its confidence.
\<close>

definition number :: "real cell \<Rightarrow> real option" where
  "number c = (case c of Value x \<Rightarrow> Some x | _ \<Rightarrow> None)"

fun import_triplets :: "nat \<Rightarrow> triplet list \<Rightarrow> graph \<Rightarrow> exn + graph" where
  "import_triplets now [] g = Inr g"
| "import_triplets now (p # ps) g =
     (case (head p, head_type p, tail p, tail_type p, relation p) of
        (Some h, Value ht, Some t, Value tt, Some r) \<Rightarrow>
          import_triplets now ps (merge_triplet now h ht t tt r (number (confidence p)) g)
      | _ \<Rightarrow> Inl (DriverError ''missing value''))"

text \<open>
  What a statement does to the store at the transaction time \<open>now\<close>. A statement is one
  transaction: when it fails the store is as before. The two \<open>CREATE ... IF NOT EXISTS\<close>
  statements do nothing when the constraint or index is there; the constraint cannot be
  created while two \<open>Entity\<close> nodes have the same name.
\<close>

definition execute :: "statement \<Rightarrow> nat \<Rightarrow> graph \<Rightarrow> exn + graph" where
  "execute stmt now g =
     (case stmt of
        DetachDeleteAll \<Rightarrow> Inr (g\<lparr>nodes := [], relationships := []\<rparr>)
      | CreateUniqueConstraint \<Rightarrow>
          (if unique_entity_name g then Inr g
           else if distinct (map node_name
                     (filter (\<lambda>v. ''Entity'' \<in> set (node_labels v)) (nodes g)))
           then Inr (g\<lparr>unique_entity_name := True\<rparr>)
           else Inl (DriverError ''constraint cannot be created''))
      | CreateIndex l \<Rightarrow>
          (if l \<in> set (indexes g) then Inr g else Inr (g\<lparr>indexes := indexes g @ [l]\<rparr>))
      | ImportTriplets ps \<Rightarrow> import_triplets now ps g)"

subsection \<open>The session\<close>

text \<open>
  The environment of a run of the builder: whether the store call number \<open>k\<close> of the run
  fails on its own account (the connection, the server), and the transaction time of
  that call. \<open>session_run\<close> is \<open>with self.driver.session() as session: session.run(...)\<close>.
\<close>

record env =
  session_fails :: "nat \<Rightarrow> bool"
  clock :: "nat \<Rightarrow> nat"

definition session_run :: "env \<Rightarrow> nat \<Rightarrow> statement \<Rightarrow> graph \<Rightarrow> exn + graph" where
  "session_run e k stmt g =
     (if session_fails e k then Inl (DriverError ''session'')
      else execute stmt (clock e k) g)"

subsection \<open>The builder\<close>

text \<open>
  The result of a method is the exception that leaves it, if any, and the store as the
  method leaves it. Log messages are left out.
\<close>

definition clear_database :: "env \<Rightarrow> nat \<Rightarrow> graph \<Rightarrow> exn option \<times> graph" where
  "clear_database e k g =
     (case session_run e k DetachDeleteAll g of
        Inl x \<Rightarrow> (Some x, g)
      | Inr g' \<Rightarrow> (None, g'))"

text \<open>The statements of a method that are sent one after the other, outside any \<open>try\<close>.\<close>

fun run_all :: "env \<Rightarrow> nat \<Rightarrow> statement list \<Rightarrow> graph \<Rightarrow> exn option \<times> graph" where
  "run_all e k [] g = (None, g)"
| "run_all e k (stmt # stmts) g =
     (case session_run e k stmt g of
        Inl x \<Rightarrow> (Some x, g)
      | Inr g' \<Rightarrow> run_all e (Suc k) stmts g')"

definition create_constraints :: "env \<Rightarrow> nat \<Rightarrow> graph \<Rightarrow> exn option \<times> graph" where
  "create_constraints e k g =
     run_all e k
       [CreateUniqueConstraint, CreateIndex ''Company'', CreateIndex ''Person'',
        CreateIndex ''Product''] g"

text \<open>
  \<open>_import_batch\<close>. The loop over the rows builds the parameter \<open>triplets\<close>; \<open>row['head']\<close>
  raises a \<open>KeyError\<close> when the frame lacks the column, while \<open>row.get\<close> falls back to its
  default. The call of the store is inside \<open>try\<close>: when it fails the batch is skipped.
\<close>

definition triplet_parameter :: "frame \<Rightarrow> triplet \<Rightarrow> triplet" where
  "triplet_parameter batch row =
     \<lparr>head = head row,
      relation = relation row,
      tail = tail row,
      confidence = (if has_column batch Confidence then confidence row else Value 0.8),
      head_type = (if has_column batch Head_type then head_type row else Value ''ENTITY''),
      tail_type = (if has_column batch Tail_type then tail_type row else Value ''ENTITY'')\<rparr>"

definition import_batch :: "env \<Rightarrow> nat \<Rightarrow> frame \<Rightarrow> graph \<Rightarrow> exn option \<times> graph" where
  "import_batch e k batch g =
     (if rows batch \<noteq> [] \<and> \<not> has_column batch Head then (Some (KeyError ''head''), g)
      else if rows batch \<noteq> [] \<and> \<not> has_column batch Tail then (Some (KeyError ''tail''), g)
      else if rows batch \<noteq> [] \<and> \<not> has_column batch Relation
        then (Some (KeyError ''relation''), g)
      else
        (case session_run e k (ImportTriplets (map (triplet_parameter batch) (rows batch))) g of
           Inl x \<Rightarrow> (None, g)
         | Inr g' \<Rightarrow> (None, g')))"

text \<open>\<open>df.iloc[i:j]\<close> and \<open>range(0, n, step)\<close>.\<close>

definition iloc :: "frame \<Rightarrow> nat \<Rightarrow> nat \<Rightarrow> frame" where
  "iloc df i j = df\<lparr>rows := take (j - i) (drop i (rows df))\<rparr>"

definition range_step :: "nat \<Rightarrow> nat \<Rightarrow> nat list" where
  "range_step n step = map (\<lambda>q. q * step) [0 ..< (n + step - 1) div step]"

definition batch_size :: nat where
  "batch_size = 100"

text \<open>The loop over the batches; the call number goes up by one with each batch.\<close>

fun import_batches :: "env \<Rightarrow> nat \<Rightarrow> frame list \<Rightarrow> graph \<Rightarrow> exn option \<times> graph" where
  "import_batches e k [] g = (None, g)"
| "import_batches e k (batch # batches) g =
     (case import_batch e k batch g of
        (Some x, g') \<Rightarrow> (Some x, g')
      | (None, g') \<Rightarrow> import_batches e (Suc k) batches g')"

definition build_graph :: "env \<Rightarrow> frame \<Rightarrow> bool \<Rightarrow> graph \<Rightarrow> exn option \<times> graph" where
  "build_graph e df clear_existing g =
     (if empty df then (None, g)
      else
        (case (if clear_existing then clear_database e 0 g else (None, g)) of
           (Some x, g1) \<Rightarrow> (Some x, g1)
         | (None, g1) \<Rightarrow>
             (let k = (if clear_existing then 1 else 0) in
              case create_constraints e k g1 of
                (Some x, g2) \<Rightarrow> (Some x, g2)
              | (None, g2) \<Rightarrow>
                  import_batches e (k + 4)
                    (map (\<lambda>i. iloc df i (i + batch_size))
                       (range_step (length (rows df)) batch_size))
                    g2)))"

text \<open>
  A canonical triplet table: the three key columns are there, and no row misses a name,
  a relation or, where the table has the type column, a type.
\<close>

definition canonical_row :: "frame \<Rightarrow> triplet \<Rightarrow> bool" where
  "canonical_row df t =
     (head t \<noteq> None \<and> relation t \<noteq> None \<and> tail t \<noteq> None
      \<and> (if has_column df Head_type then \<not> missing (head_type t) else True)
      \<and> (if has_column df Tail_type then \<not> missing (tail_type t) else True))"

definition canonical :: "frame \<Rightarrow> bool" where
  "canonical df =
     (has_column df Head \<and> has_column df Relation \<and> has_column df Tail
      \<and> list_all (canonical_row df) (rows df))"

subsection \<open>Identities of nodes and relationships\<close>

text \<open>
  What the two \<open>MERGE\<close> clauses look at: for a node, whether it has the label \<open>Entity\<close>,
  and its name; for a relationship, its start node, its \<open>type\<close> and its end node.
\<close>

definition entity_key :: "node \<Rightarrow> bool \<times> string" where
  "entity_key v = (''Entity'' \<in> set (node_labels v), node_name v)"

definition relationship_key :: "relationship \<Rightarrow> nat \<times> string \<times> nat" where
  "relationship_key e = (start_node e, rel_type e, end_node e)"

definition entity_keys :: "graph \<Rightarrow> (bool \<times> string) list" where
  "entity_keys g = map entity_key (nodes g)"

definition relationship_keys :: "graph \<Rightarrow> (nat \<times> string \<times> nat) list" where
  "relationship_keys g = map relationship_key (relationships g)"

text \<open>
  On the lists of identities a \<open>MERGE\<close> is an insertion that does nothing when the
  identity is there. \<open>key_step\<close> is what the import of one triplet does to the two lists,
  and \<open>present\<close> says that the two nodes and the relationship of a triplet are there.
\<close>

definition upsert :: "'a \<Rightarrow> 'a list \<Rightarrow> 'a list" where
  "upsert x xs = (if x \<in> set xs then xs else xs @ [x])"

definition index_of :: "'a \<Rightarrow> 'a list \<Rightarrow> nat option" where
  "index_of x xs = first_index (\<lambda>k. k = x) xs"

definition keys :: "graph \<Rightarrow> (bool \<times> string) list \<times> (nat \<times> string \<times> nat) list" where
  "keys g = (entity_keys g, relationship_keys g)"

definition key_step ::
  "string \<Rightarrow> string \<Rightarrow> string \<Rightarrow> (bool \<times> string) list \<times> (nat \<times> string \<times> nat) list
     \<Rightarrow> (bool \<times> string) list \<times> (nat \<times> string \<times> nat) list" where
  "key_step h r t s =
     (let ek = upsert (True, t) (upsert (True, h) (fst s)) in
      case (index_of (True, h) ek, index_of (True, t) ek) of
        (Some i, Some j) \<Rightarrow> (ek, upsert (i, r, j) (snd s))
      | _ \<Rightarrow> (ek, snd s))"

definition present ::
  "(bool \<times> string) list \<times> (nat \<times> string \<times> nat) list \<Rightarrow> string \<Rightarrow> string \<Rightarrow> string \<Rightarrow> bool" where
  "present s h r t =
     (\<exists>i j. index_of (True, h) (fst s) = Some i \<and> index_of (True, t) (fst s) = Some j
        \<and> (i, r, j) \<in> set (snd s))"

definition parameter_ok :: "triplet \<Rightarrow> bool" where
  "parameter_ok p = (head p \<noteq> None \<and> \<not> missing (head_type p) \<and> tail p \<noteq> None
     \<and> \<not> missing (tail_type p) \<and> relation p \<noteq> None)"

definition present_row ::
  "(bool \<times> string) list \<times> (nat \<times> string \<times> nat) list \<Rightarrow> triplet \<Rightarrow> bool" where
  "present_row s p =
     (case (head p, relation p, tail p) of
        (Some h, Some r, Some t) \<Rightarrow> present s h r t
      | _ \<Rightarrow> False)"

definition schema_statement :: "statement \<Rightarrow> bool" where
  "schema_statement stmt =
     (case stmt of CreateUniqueConstraint \<Rightarrow> True | CreateIndex l \<Rightarrow> True | _ \<Rightarrow> False)"


definition distinct_keys :: "(bool \<times> string) list \<times> (nat \<times> string \<times> nat) list \<Rightarrow> bool" where
  "distinct_keys s = (distinct (fst s) \<and> distinct (snd s))"

subsection \<open>The test data of \<open>graph_builder.py\<close>\<close>

text \<open>
  The frame that the module's own test at the end of the file builds the graph from,
  an empty store, and an environment in which no store call fails.
\<close>

definition test_data :: frame where
  "test_data =
     DataFrame
       [raw_triplet ''Apple'' ''ACQUIRED'' ''DarwinAI'' (Value 0.95),
        raw_triplet ''Microsoft'' ''INVESTED_IN'' ''OpenAI'' (Value 0.92),
        raw_triplet ''Tesla'' ''LAUNCHED'' ''Model Y'' (Value 0.88)]"

definition empty_store :: graph where
  "empty_store = \<lparr>nodes = [], relationships = [], unique_entity_name = False, indexes = []\<rparr>"

definition reliable :: env where
  "reliable = \<lparr>session_fails = (\<lambda>k. False), clock = (\<lambda>k. k)\<rparr>"


section \<open>NaturalLanguageQuery (src/query_nl.py)\<close>

subsection \<open>Query texts\<close>

text \<open>
  A triple-quoted literal that starts with a line break: every line of the list,
  the closing indentation included, comes after a line break.
\<close>

definition block :: "string list \<Rightarrow> string" where
  "block ls = concat (map (\<lambda>l. CHR 0x0A # l) ls)"

text \<open>The values of \<open>self.query_templates\<close>.\<close>

definition company_acquisitions_query :: string where
  "company_acquisitions_query =
     block
       [''                MATCH (c:Company)-[r:ACQUIRED]->(target)'',
        ''                RETURN c.name as acquirer, target.name as acquired_company, '',
        ''                       r.confidence as confidence'',
        ''                ORDER BY r.confidence DESC'',
        ''                LIMIT 10'',
        ''            '']"

definition company_investments_query :: string where
  "company_investments_query =
     block
       [''                MATCH (c:Company)-[r:INVESTED_IN]->(target)'',
        ''                RETURN c.name as investor, target.name as investment, '',
        ''                       r.confidence as confidence'',
        ''                ORDER BY r.confidence DESC'',
        ''                LIMIT 10'',
        ''            '']"

definition person_companies_query :: string where
  "person_companies_query =
     block
       [''                MATCH (p:Person)-[r:CEO_OF]->(c:Company)'',
        ''                RETURN p.name as person, c.name as company, '',
        ''                       r.confidence as confidence'',
        ''                ORDER BY r.confidence DESC'',
        ''                LIMIT 10'',
        ''            '']"

definition product_launches_query :: string where
  "product_launches_query =
     block
       [''                MATCH (c:Company)-[r:LAUNCHED]->(p:Product)'',
        ''                RETURN c.name as company, p.name as product, '',
        ''                       r.confidence as confidence'',
        ''                ORDER BY r.confidence DESC'',
        ''                LIMIT 10'',
        ''            '']"

text \<open>The dictionary \<open>self.query_templates\<close>, in insertion order.\<close>

definition query_templates :: "(string \<times> string) list" where
  "query_templates =
     [(''company acquisitions'', company_acquisitions_query),
      (''company investments'', company_investments_query),
      (''person companies'', person_companies_query),
      (''product launches'', product_launches_query)]"

text \<open>The default query of \<open>_rule_based_conversion\<close>.\<close>

definition default_query :: string where
  "default_query =
     block
       [''            MATCH (n)-[r]->(m)'',
        ''            WHERE n.name CONTAINS $term OR m.name CONTAINS $term'',
        ''            RETURN n.name as source, type(r) as relationship, m.name as target'',
        ''            LIMIT 10'',
        ''        '']"

text \<open>
  The rules of \<open>_rule_based_conversion\<close>: the text before the group \<open>(.+?)\<close>, the text
  after it, and the query skeleton.
\<close>

definition rule_pattern :: "string \<Rightarrow> string \<Rightarrow> re" where
  "rule_pattern lead rear = seqs [text_re lead, Group (one_or_more_lazy dot), text_re rear]"

definition patterns :: "(re \<times> string) list" where
  "patterns =
     [(rule_pattern ''what companies did '' '' acquire'',
       ''MATCH (c:Company {name: $company})-[:ACQUIRED]->(target) RETURN target.name''),
      (rule_pattern ''who invested in '' [],
       ''MATCH (investor)-[:INVESTED_IN]->(c:Company {name: $company}) RETURN investor.name''),
      (rule_pattern ''what products did '' '' launch'',
       ''MATCH (c:Company {name: $company})-[:LAUNCHED]->(p:Product) RETURN p.name''),
      (rule_pattern ''who is the ceo of '' [],
       ''MATCH (p:Person)-[:CEO_OF]->(c:Company {name: $company}) RETURN p.name''),
      (rule_pattern ''what companies partnered with '' [],
       ''MATCH (c:Company)-[:PARTNERED_WITH]->(target:Company {name: $company}) RETURN c.name'')]"


subsection \<open>Translation\<close>

text \<open>
  \<open>s.replace(old, new)\<close> for a non-empty \<open>old\<close>: the occurrences are replaced from left to
  right and do not overlap. The counter is the number of characters of the current
  occurrence that are still to be skipped.
\<close>

fun replace_from :: "nat \<Rightarrow> string \<Rightarrow> string \<Rightarrow> string \<Rightarrow> string" where
  "replace_from skip old new [] = []"
| "replace_from skip old new (c # cs) =
     (if 0 < skip then replace_from (skip - 1) old new cs
      else if prefix old (c # cs) then new @ replace_from (length old - 1) old new cs
      else c # replace_from 0 old new cs)"

definition replace :: "string \<Rightarrow> string \<Rightarrow> string \<Rightarrow> string" where
  "replace old new s = replace_from 0 old new s"

text \<open>
  The loop over the rules: the first rule whose pattern is found in the question gives
  the query, with the captured text, trimmed and title-cased, put between quotes in
  place of \<open>$company\<close>. A pattern of the program that matches has matched its group.
\<close>

fun first_rule :: "(re \<times> string) list \<Rightarrow> string \<Rightarrow> string option" where
  "first_rule [] question_lower = None"
| "first_rule ((pattern, template) # rules) question_lower =
     (case re_search pattern question_lower of
        None \<Rightarrow> first_rule rules question_lower
      | Some m \<Rightarrow>
          (let entity = strip (case cap m of None \<Rightarrow> [] | Some g \<Rightarrow> g)
           in Some (replace ''$company'' ([CHR 0x27] @ title entity @ [CHR 0x27]) template)))"

definition rule_based_conversion :: "string \<Rightarrow> string option" where
  "rule_based_conversion question =
     (let question_lower = lower question in
      case first_rule patterns question_lower of
        Some cypher \<Rightarrow> Some cypher
      | None \<Rightarrow> Some default_query)"

text \<open>
  \<open>NL_TO_CYPHER_PROMPT.format(question=question)\<close>, from \<open>config/prompts.py\<close>.
\<close>

definition nl_to_cypher_prompt :: "string \<Rightarrow> string" where
  "nl_to_cypher_prompt question =
     block
       [''Convert the natural language question to a Cypher query for Neo4j knowledge graph.'',
        [],
        ''Knowledge Graph Schema:'',
        ''- Node labels: Entity, Company, Person, Product, Event'',
        ''- Node properties: name, type, description'',
        ''- Relationship types: ACQUIRED, INVESTED_IN, LAUNCHED, PARTNERED_WITH, CEO_OF, FOUNDED'',
        [],
        ''Question: '' @ question,
        [],
        ''Cypher Query (return only the query, no explanation):'',
        []]"

text \<open>
  \<open>_llm_to_cypher\<close>. The external model is a function from the prompt to the content of
  its answer, or to the exception that the call raises; every exception is caught and
  gives \<open>None\<close>. The code fence is three back quotes (code point 96).
\<close>

definition code_fence :: string where
  "code_fence = replicate 3 (CHR 0x60)"

definition llm_to_cypher :: "(string \<Rightarrow> exn + string) \<Rightarrow> string \<Rightarrow> string option" where
  "llm_to_cypher chat question =
     (case chat (nl_to_cypher_prompt question) of
        Inl x \<Rightarrow> None
      | Inr content \<Rightarrow>
          (let cypher = strip content;
               cypher = strip (replace code_fence [] (replace (code_fence @ ''cypher'') [] cypher))
           in Some cypher))"

text \<open>\<open>query_to_cypher\<close>; the loop over the templates is the loop over a dictionary's items.\<close>

definition query_to_cypher ::
  "config \<Rightarrow> (string \<Rightarrow> exn + string) \<Rightarrow> string \<Rightarrow> bool \<Rightarrow> string option" where
  "query_to_cypher cfg chat question use_llm =
     (let question_lower = strip (lower question) in
      case first_key_contained query_templates question_lower of
        Some template \<Rightarrow> Some template
      | None \<Rightarrow>
          (if use_llm \<and> llm_mode cfg = ''api'' then llm_to_cypher chat question
           else rule_based_conversion question))"

subsection \<open>Execution\<close>

text \<open>
  A row of a result maps field names to values. The driver as the query code sees it:
  the exception that opening a session raises, if any, and what \<open>session.run\<close> with the
  iteration over its result gives for a query and its parameters, the rows or the
  exception raised. Exceptions here are of class \<open>Exception\<close>.
\<close>

type_synonym row = "(string \<times> string) list"

record driver =
  open_session :: "exn option"
  run :: "string \<Rightarrow> (string \<rightharpoonup> string) \<Rightarrow> exn + row list"

datatype log_entry = LogInfo string | LogWarning string | LogError string

fun str_exn :: "exn \<Rightarrow> string" where
  "str_exn (KeyError m) = m"
| "str_exn (DriverError m) = m"

text \<open>
  \<open>execute_query\<close>. The result is what the caller gets, the returned rows (\<open>Inr\<close>) or an
  exception that leaves the method (\<open>Inl\<close>), with the messages logged. The number in the
  info message is left out.
\<close>

definition execute_query ::
  "driver \<Rightarrow> string \<Rightarrow> (string \<rightharpoonup> string) option \<Rightarrow> (exn + row list) \<times> log_entry list" where
  "execute_query d cypher_query params =
     (let params = (case params of None \<Rightarrow> Map.empty | Some p \<Rightarrow> p) in
      case (case open_session d of
              Some x \<Rightarrow> Inl x
            | None \<Rightarrow> run d cypher_query params) of
        Inr records \<Rightarrow> (Inr records, [LogInfo ''Query executed''])
      | Inl x \<Rightarrow> (Inr [], [LogError (''Query execution failed: '' @ str_exn x)]))"

text \<open>\<open>ask_question\<close>, which calls \<open>query_to_cypher\<close> and \<open>execute_query\<close> with their defaults.\<close>

definition ask_question ::
  "config \<Rightarrow> (string \<Rightarrow> exn + string) \<Rightarrow> driver \<Rightarrow> string \<Rightarrow> (exn + row list) \<times> log_entry list" where
  "ask_question cfg chat d question =
     (case query_to_cypher cfg chat question False of
        None \<Rightarrow>
          (Inr [], [LogInfo (''Processing question: '' @ question),
                    LogWarning ''Could not convert question to Cypher''])
      | Some cypher \<Rightarrow>
          (if cypher = []
           then (Inr [], [LogInfo (''Processing question: '' @ question),
                          LogWarning ''Could not convert question to Cypher''])
           else
             (let (results, messages) = execute_query d cypher None
              in (results,
                  [LogInfo (''Processing question: '' @ question),
                   LogInfo (''Generated Cypher: '' @ cypher)] @ messages))))"

text \<open>
  A driver over a store that holds the rows \<open>records\<close> for whatever is asked and that, as
  Neo4j does, refuses a query which uses the parameter \<open>$term\<close> when the call does not
  supply it.
\<close>

definition checking_driver :: "row list \<Rightarrow> driver" where
  "checking_driver records =
     \<lparr>open_session = None,
      run = (\<lambda>cypher params.
               if str_in ''$term'' cypher \<and> params ''term'' = None
               then Inl (DriverError ''Expected parameter(s): term'')
               else Inr records)\<rparr>"

subsection \<open>The specification's wording, for comparison with the code\<close>

text \<open>
  Relation standardization as the specification words it: lower-case and trim the
  string; on an exact synonym match take its canonical name, else the canonical name of
  the first synonym (in the order of the mapping) that the string contains, else the
  trimmed string in upper case.
\<close>

definition standardize_relation_spec :: "string \<Rightarrow> string" where
  "standardize_relation_spec s =
     (let t = strip (lower s) in
      case find (\<lambda>kv. fst kv = t) relation_standardization of
        Some kv \<Rightarrow> snd kv
      | None \<Rightarrow>
          (case find (\<lambda>kv. str_in (fst kv) t) relation_standardization of
             Some kv \<Rightarrow> snd kv
           | None \<Rightarrow> upper (strip s)))"

text \<open>
  Type inference as the specification words it: an ordered list of checks, the first
  check that matches decides the category, and \<open>ENTITY\<close> is the default.
\<close>

definition ordered_checks :: "((string \<Rightarrow> bool) \<times> string) list" where
  "ordered_checks =
     [(company_check, ''COMPANY''),
      (person_check, ''PERSON''),
      (date_check, ''DATE''),
      (currency_check, ''CURRENCY'')]"

definition infer_entity_type_spec :: "string \<Rightarrow> string" where
  "infer_entity_type_spec s =
     (case find (\<lambda>check. fst check s) ordered_checks of
        Some check \<Rightarrow> snd check
      | None \<Rightarrow> ''ENTITY'')"

subsection \<open>The test configuration of \<open>clean.py\<close>\<close>

text \<open>
  The configuration that the module's own test at the end of the file uses, with the
  mode of the external model that the test of \<open>query_nl.py\<close> configures.
\<close>

definition test_config :: config where
  "test_config =
     \<lparr>confidence_threshold = 0.7,
      relation_types = [''ACQUIRED'', ''INVESTED_IN'', ''LAUNCHED'', ''PARTNERED_WITH''],
      llm_mode = ''local''\<rparr>"


section \<open>Cells\<close>

lemma missing_simps [simp]: "missing Absent" "missing Null" "\<not> missing (Value v)"
  by (simp_all add: missing_def)

lemma not_missing: "(\<not> missing c) = (\<exists>v. c = Value v)"
  by (cases c) simp_all

section \<open>Properties of the string operations\<close>

lemma of_char_upper_bound: "(of_char c :: nat) < 256"
  by (cases c) (simp add: of_char_def)

lemma upper_lower_char: "upper_char (lower_char c) = upper_char c"
  using of_char_upper_bound[of c]
  by (auto simp: upper_char_def lower_char_def is_upper_char_def is_lower_char_def Let_def)

lemma isspace_lower_char: "isspace (lower_char c) = isspace c"
  using of_char_upper_bound[of c]
  by (auto simp: lower_char_def is_upper_char_def isspace_def Let_def)

lemma upper_lower: "upper (lower s) = upper s"
  by (simp add: upper_def lower_def upper_lower_char)

lemma dropWhile_isspace_lower:
  "dropWhile isspace (map lower_char s) = map lower_char (dropWhile isspace s)"
  by (induction s) (simp_all add: isspace_lower_char)

lemma lower_strip: "lower (strip s) = strip (lower s)"
  by (simp add: lower_def strip_def dropWhile_isspace_lower rev_map)


section \<open>Relation standardization\<close>

lemma map_of_find_fst:
  "map_of kvs k = map_option snd (find (\<lambda>kv. fst kv = k) kvs)"
  by (induction kvs) auto

lemma first_key_contained_find:
  "first_key_contained kvs t = map_option snd (find (\<lambda>kv. str_in (fst kv) t) kvs)"
  by (induction kvs t rule: first_key_contained.induct) auto

lemma standardize_relation_refines:
  "standardize_relation (Some s) = standardize_relation_spec s"
  by (simp add: standardize_relation_def standardize_relation_spec_def Let_def
      map_of_find_fst first_key_contained_find lower_strip [symmetric] upper_lower
      split: option.splits)

lemma standardize_acquired: "standardize_relation (Some ''acquired'') = ''ACQUIRED''"
  by code_simp

lemma standardize_bought: "standardize_relation (Some ''bought'') = ''ACQUIRED''"
  by code_simp

lemma standardize_acquisition: "standardize_relation (Some ''ACQUISITION'') = ''ACQUIRED''"
  by code_simp

text \<open>
  Claim C4. On a relation string, \<open>_standardize_relation\<close> computes what the
  specification describes: the string is lower-cased and trimmed; an exact synonym
  match gives the mapped canonical name, otherwise the first synonym of the mapping
  that occurs in the string as a substring gives its canonical name, and otherwise the
  result is the trimmed string in upper case. The inputs "acquired", "bought" and
  "ACQUISITION" all give exactly "ACQUIRED".
\<close>

theorem standardize_relation_correct:
  "standardize_relation (Some s) = standardize_relation_spec s
   \<and> standardize_relation (Some ''acquired'') = ''ACQUIRED''
   \<and> standardize_relation (Some ''bought'') = ''ACQUIRED''
   \<and> standardize_relation (Some ''ACQUISITION'') = ''ACQUIRED''"
  using standardize_relation_refines standardize_acquired standardize_bought
    standardize_acquisition by simp


section \<open>Entity type inference\<close>

lemma infer_entity_type_refines:
  "infer_entity_type (Some s) = infer_entity_type_spec s"
  by (simp add: infer_entity_type_def infer_entity_type_spec_def ordered_checks_def)

lemma infer_tim_cook: "infer_entity_type (Some ''Tim Cook'') = ''PERSON''"
  by code_simp

lemma infer_apple_inc: "infer_entity_type (Some ''Apple Inc'') = ''COMPANY''"
  by code_simp

lemma infer_100_million: "infer_entity_type (Some ''$100 million'') = ''CURRENCY''"
  by code_simp

lemma infer_january_2024: "infer_entity_type (Some ''January 2024'') = ''DATE''"
  by code_simp

lemma infer_darwinai: "infer_entity_type (Some ''DarwinAI'') = ''ENTITY''"
  by code_simp

text \<open>
  Claim C5. On an entity string, \<open>_infer_entity_type\<close> is the first match in the
  ordered list of checks: the company tokens Inc, Corp, Ltd, LLC, Co., Company and
  Group (a token counts wherever it occurs in the string), then the shape of two
  capitalized words, then the date patterns, then the currency patterns, and \<open>ENTITY\<close>
  when no check matches. "Tim Cook" is a PERSON, "Apple Inc" a COMPANY,
  "$100 million" a CURRENCY, "January 2024" a DATE and "DarwinAI" an ENTITY.
\<close>

theorem infer_entity_type_correct:
  "infer_entity_type (Some s) = infer_entity_type_spec s
   \<and> infer_entity_type (Some ''Tim Cook'') = ''PERSON''
   \<and> infer_entity_type (Some ''Apple Inc'') = ''COMPANY''
   \<and> infer_entity_type (Some ''$100 million'') = ''CURRENCY''
   \<and> infer_entity_type (Some ''January 2024'') = ''DATE''
   \<and> infer_entity_type (Some ''DarwinAI'') = ''ENTITY''"
  using infer_entity_type_refines infer_tim_cook infer_apple_inc infer_100_million
    infer_january_2024 infer_darwinai by simp


section \<open>The steps of the Normalizer\<close>

subsection \<open>Deduplication\<close>

lemma drop_seen_keys:
  "set (map subset_key (drop_seen seen ts)) = set (map subset_key ts) - set seen"
  by (induction seen ts rule: drop_seen.induct) auto

lemma drop_seen_distinct: "distinct (map subset_key (drop_seen seen ts))"
proof (induction seen ts rule: drop_seen.induct)
  case (1 seen)
  then show ?case by simp
next
  case (2 seen t ts)
  have "subset_key t \<notin> set (map subset_key (drop_seen (subset_key t # seen) ts))"
    by (simp only: drop_seen_keys) simp
  with 2 show ?case by simp
qed

lemma drop_seen_first:
  "t \<in> set (drop_seen seen ts) \<Longrightarrow> find (\<lambda>u. subset_key u = subset_key t) ts = Some t"
proof (induction seen ts rule: drop_seen.induct)
  case (1 seen)
  then show ?case by simp
next
  case (2 seen t0 ts)
  show ?case
  proof (cases "subset_key t0 \<in> set seen")
    case True
    with 2 have in_rest: "t \<in> set (drop_seen seen ts)" by simp
    then have "subset_key t \<in> set (map subset_key (drop_seen seen ts))" by simp
    then have "subset_key t \<notin> set seen" by (simp only: drop_seen_keys) simp
    with True have "subset_key t0 \<noteq> subset_key t" by auto
    with 2 True in_rest show ?thesis by simp
  next
    case False
    show ?thesis
    proof (cases "t = t0")
      case True
      then show ?thesis by simp
    next
      case ne: False
      with 2 False have in_rest: "t \<in> set (drop_seen (subset_key t0 # seen) ts)" by simp
      then have "subset_key t \<in> set (map subset_key (drop_seen (subset_key t0 # seen) ts))"
        by simp
      then have "subset_key t \<noteq> subset_key t0" by (simp only: drop_seen_keys) simp
      with 2 False in_rest show ?thesis by simp
    qed
  qed
qed

lemma drop_duplicates_distinct: "distinct (map subset_key (rows (drop_duplicates df)))"
  by (simp add: drop_duplicates_def drop_seen_distinct)

lemma drop_duplicates_keys:
  "set (map subset_key (rows (drop_duplicates df))) = set (map subset_key (rows df))"
  using drop_seen_keys [of "[]" "rows df"] by (simp add: drop_duplicates_def)

lemma drop_duplicates_first:
  "t \<in> set (rows (drop_duplicates df)) \<Longrightarrow>
   find (\<lambda>u. subset_key u = subset_key t) (rows df) = Some t"
  by (simp add: drop_duplicates_def drop_seen_first)

lemma drop_duplicates_pair:
  "subset_key t1 = subset_key t2 \<Longrightarrow> rows (drop_duplicates (DataFrame [t1, t2])) = [t1]"
  by (simp add: drop_duplicates_def DataFrame_def)

lemma clean_triplets_pair:
  assumes key: "subset_key t1 = subset_key t2"
  shows "clean_triplets cfg [t1, t2] =
    sort_by_confidence (add_entity_types (remove_self_references
      (remove_invalid_relations cfg (clean_entity_names (standardize_relations
        (filter_confidence cfg \<lparr>columns = columns (DataFrame [t1, t2]), rows = [t1]\<rparr>))))))"
proof -
  have "drop_duplicates (DataFrame [t1, t2]) =
      \<lparr>columns = columns (DataFrame [t1, t2]), rows = [t1]\<rparr>"
    using key by (simp add: drop_duplicates_def DataFrame_def)
  moreover have "\<not> empty (DataFrame [t1, t2])"
    by (simp add: empty_def DataFrame_def)
  ultimately show ?thesis
    by (simp add: clean_triplets_def Let_def)
qed

lemma clean_triplets_pair_low_first:
  assumes "subset_key t1 = subset_key t2" and "confidence t1 = Value c"
    and "c < confidence_threshold cfg"
  shows "rows (clean_triplets cfg [t1, t2]) = []"
  using assms(2,3)
  by (simp add: clean_triplets_pair [OF assms(1)] filter_confidence_def has_column_def
      DataFrame_def confidence_ok_def standardize_relations_def clean_entity_names_def
      remove_invalid_relations_def remove_self_references_def add_entity_types_def
      sort_by_confidence_def sort_values_def Let_def)

lemma clean_triplets_pair_example:
  assumes "confidence_threshold cfg \<le> 0.9"
    and "standardize_relation (Some r) \<in> set (relation_types cfg)"
    and "clean_entity_name (Some a) \<noteq> clean_entity_name (Some b)"
  shows "rows (clean_triplets cfg [raw_triplet a r b (Value 0.9), raw_triplet a r b (Value 0.5)]) =
    [\<lparr>head = Some (clean_entity_name (Some a)),
      relation = Some (standardize_relation (Some r)),
      tail = Some (clean_entity_name (Some b)),
      confidence = Value 0.9,
      head_type = Value (infer_entity_type (Some (clean_entity_name (Some a)))),
      tail_type = Value (infer_entity_type (Some (clean_entity_name (Some b))))\<rparr>]"
proof -
  have key: "subset_key (raw_triplet a r b (Value 0.9)) = subset_key (raw_triplet a r b (Value 0.5))"
    by (simp add: subset_key_def raw_triplet_def)
  have cols: "columns (DataFrame [raw_triplet a r b (Value 0.9), raw_triplet a r b (Value 0.5)]) =
      {Head, Relation, Tail, Confidence}"
    by (auto simp: DataFrame_def raw_triplet_def)
  show ?thesis
    unfolding clean_triplets_pair [OF key] cols
    using assms
    by (simp add: filter_confidence_def has_column_def
      DataFrame_def confidence_ok_def standardize_relations_def clean_entity_names_def
      remove_invalid_relations_def remove_self_references_def add_entity_types_def
      sort_by_confidence_def sort_values_def Let_def raw_triplet_def relation_valid_def
      del: not_None_eq)
qed

lemma clean_apple: "clean_entity_name (Some ''Apple'') = ''Apple''"
  by code_simp

lemma clean_darwinai: "clean_entity_name (Some ''DarwinAI'') = ''DarwinAI''"
  by code_simp

lemma infer_apple: "infer_entity_type (Some ''Apple'') = ''ENTITY''"
  by code_simp

text \<open>
  Claim C8. \<open>drop_duplicates\<close> works on the exact cells \<open>(head, relation, tail)\<close>: the
  rows it keeps have pairwise different keys, every key of the frame is still there,
  and a row that is kept is the first row of the frame with its key, other fields
  included. So of two triplets with the same key only the first is left after the
  step. For the triplets (A,R,B,0.9) and (A,R,B,0.5) the Normalizer returns exactly one
  record, with confidence 0.9, provided that the threshold is at most 0.9, that R
  standardizes to a valid relation and that A and B are different after cleaning. The
  step runs before the confidence filter: when the first of two triplets with the same
  key is below the threshold, nothing is returned, whatever the confidence of the
  second.
\<close>

theorem drop_duplicates_keeps_first:
  "distinct (map subset_key (rows (drop_duplicates df)))
   \<and> set (map subset_key (rows (drop_duplicates df))) = set (map subset_key (rows df))
   \<and> (\<forall>t \<in> set (rows (drop_duplicates df)).
         find (\<lambda>u. subset_key u = subset_key t) (rows df) = Some t)
   \<and> (subset_key t1 = subset_key t2 \<longrightarrow> rows (drop_duplicates (DataFrame [t1, t2])) = [t1])
   \<and> (confidence_threshold cfg \<le> 0.9
        \<and> standardize_relation (Some r) \<in> set (relation_types cfg)
        \<and> clean_entity_name (Some a) \<noteq> clean_entity_name (Some b) \<longrightarrow>
       rows (clean_triplets cfg [raw_triplet a r b (Value 0.9), raw_triplet a r b (Value 0.5)]) =
         [\<lparr>head = Some (clean_entity_name (Some a)),
           relation = Some (standardize_relation (Some r)),
           tail = Some (clean_entity_name (Some b)),
           confidence = Value 0.9,
           head_type = Value (infer_entity_type (Some (clean_entity_name (Some a)))),
           tail_type = Value (infer_entity_type (Some (clean_entity_name (Some b))))\<rparr>])
   \<and> (subset_key t1 = subset_key t2 \<and> confidence t1 = Value c \<and> c < confidence_threshold cfg \<longrightarrow>
       rows (clean_triplets cfg [t1, t2]) = [])"
proof (intro conjI impI ballI)
  show "distinct (map subset_key (rows (drop_duplicates df)))"
    by (rule drop_duplicates_distinct)
  show "set (map subset_key (rows (drop_duplicates df))) = set (map subset_key (rows df))"
    by (rule drop_duplicates_keys)
  show "find (\<lambda>u. subset_key u = subset_key t) (rows df) = Some t"
    if "t \<in> set (rows (drop_duplicates df))" for t
    using that by (rule drop_duplicates_first)
  show "rows (drop_duplicates (DataFrame [t1, t2])) = [t1]" if "subset_key t1 = subset_key t2"
    using that by (rule drop_duplicates_pair)
  show "rows (clean_triplets cfg [raw_triplet a r b (Value 0.9), raw_triplet a r b (Value 0.5)]) =
         [\<lparr>head = Some (clean_entity_name (Some a)),
           relation = Some (standardize_relation (Some r)),
           tail = Some (clean_entity_name (Some b)),
           confidence = Value 0.9,
           head_type = Value (infer_entity_type (Some (clean_entity_name (Some a)))),
           tail_type = Value (infer_entity_type (Some (clean_entity_name (Some b))))\<rparr>]"
    if "confidence_threshold cfg \<le> 0.9
        \<and> standardize_relation (Some r) \<in> set (relation_types cfg)
        \<and> clean_entity_name (Some a) \<noteq> clean_entity_name (Some b)"
    using that by (intro clean_triplets_pair_example) simp_all
  show "rows (clean_triplets cfg [t1, t2]) = []"
    if "subset_key t1 = subset_key t2 \<and> confidence t1 = Value c \<and> c < confidence_threshold cfg"
    using that clean_triplets_pair_low_first by blast
qed

theorem drop_duplicates_keeps_first_witness:
  "rows (drop_duplicates (DataFrame
      [raw_triplet ''Apple'' ''acquired'' ''DarwinAI'' (Value 0.9),
       raw_triplet ''Apple'' ''acquired'' ''DarwinAI'' (Value 0.5)])) =
     [raw_triplet ''Apple'' ''acquired'' ''DarwinAI'' (Value 0.9)]
   \<and> find (\<lambda>u. subset_key u = subset_key (raw_triplet ''Apple'' ''acquired'' ''DarwinAI'' (Value 0.9)))
        [raw_triplet ''Apple'' ''acquired'' ''DarwinAI'' (Value 0.9),
         raw_triplet ''Apple'' ''acquired'' ''DarwinAI'' (Value 0.5)] =
       Some (raw_triplet ''Apple'' ''acquired'' ''DarwinAI'' (Value 0.9))
   \<and> rows (clean_triplets test_config
        [raw_triplet ''Apple'' ''acquired'' ''DarwinAI'' (Value 0.9),
         raw_triplet ''Apple'' ''acquired'' ''DarwinAI'' (Value 0.5)]) =
       [\<lparr>head = Some ''Apple'', relation = Some ''ACQUIRED'', tail = Some ''DarwinAI'',
         confidence = Value 0.9, head_type = Value ''ENTITY'', tail_type = Value ''ENTITY''\<rparr>]
   \<and> rows (clean_triplets test_config
        [raw_triplet ''Apple'' ''acquired'' ''DarwinAI'' (Value 0.5),
         raw_triplet ''Apple'' ''acquired'' ''DarwinAI'' (Value 0.9)]) = []"
proof -
  let ?hi = "raw_triplet ''Apple'' ''acquired'' ''DarwinAI'' (Value 0.9)"
  let ?lo = "raw_triplet ''Apple'' ''acquired'' ''DarwinAI'' (Value 0.5)"
  have key: "subset_key ?hi = subset_key ?lo" "subset_key ?lo = subset_key ?hi"
    by (simp_all add: subset_key_def raw_triplet_def)
  have thr: "confidence_threshold test_config \<le> 0.9" "(0.5::real) < confidence_threshold test_config"
    by (simp_all add: test_config_def)
  have rel: "standardize_relation (Some ''acquired'') \<in> set (relation_types test_config)"
    by (simp add: standardize_acquired test_config_def)
  have names: "clean_entity_name (Some ''Apple'') \<noteq> clean_entity_name (Some ''DarwinAI'')"
    by (simp add: clean_apple clean_darwinai)
  have lo: "confidence ?lo = Value 0.5"
    by (simp add: raw_triplet_def)
  note hi_lo = drop_duplicates_keeps_first
    [where df = "DataFrame [?hi, ?lo]" and ?t1.0 = ?hi and ?t2.0 = ?lo and cfg = test_config
       and r = "''acquired''" and a = "''Apple''" and b = "''DarwinAI''" and c = "0.5"]
  note lo_hi = drop_duplicates_keeps_first
    [where df = "DataFrame [?lo, ?hi]" and ?t1.0 = ?lo and ?t2.0 = ?hi and cfg = test_config
       and r = "''acquired''" and a = "''Apple''" and b = "''DarwinAI''" and c = "0.5"]
  from hi_lo key(1) have pair: "rows (drop_duplicates (DataFrame [?hi, ?lo])) = [?hi]"
    by blast
  from hi_lo have "\<forall>t \<in> set (rows (drop_duplicates (DataFrame [?hi, ?lo]))).
      find (\<lambda>u. subset_key u = subset_key t) (rows (DataFrame [?hi, ?lo])) = Some t"
    by blast
  with pair have first: "find (\<lambda>u. subset_key u = subset_key ?hi) [?hi, ?lo] = Some ?hi"
    by (simp add: DataFrame_def)
  from hi_lo thr(1) rel names have
    "rows (clean_triplets test_config [?hi, ?lo]) =
       [\<lparr>head = Some (clean_entity_name (Some ''Apple'')),
         relation = Some (standardize_relation (Some ''acquired'')),
         tail = Some (clean_entity_name (Some ''DarwinAI'')),
         confidence = Value 0.9,
         head_type = Value (infer_entity_type (Some (clean_entity_name (Some ''Apple'')))),
         tail_type = Value (infer_entity_type (Some (clean_entity_name (Some ''DarwinAI''))))\<rparr>]"
    by blast
  then have kept: "rows (clean_triplets test_config [?hi, ?lo]) =
       [\<lparr>head = Some ''Apple'', relation = Some ''ACQUIRED'', tail = Some ''DarwinAI'',
         confidence = Value 0.9, head_type = Value ''ENTITY'', tail_type = Value ''ENTITY''\<rparr>]"
    by (simp only: clean_apple clean_darwinai standardize_acquired infer_apple infer_darwinai)
  from lo_hi key(2) lo thr(2) have gone: "rows (clean_triplets test_config [?lo, ?hi]) = []"
    by blast
  from pair first kept gone show ?thesis by blast
qed


subsection \<open>The confidence filter\<close>

lemma has_column_drop_duplicates:
  "has_column (drop_duplicates (DataFrame triplets)) Confidence =
     list_ex (\<lambda>t. confidence t \<noteq> Absent) triplets"
  by (simp add: has_column_def drop_duplicates_def DataFrame_def list_ex_iff)

lemma filter_confidence_rows:
  "(t \<in> set (rows (filter_confidence cfg df))) =
   (t \<in> set (rows df) \<and>
     (has_column df Confidence \<longrightarrow> (\<exists>c. confidence t = Value c \<and> confidence_threshold cfg \<le> c)))"
  by (auto simp: filter_confidence_def confidence_ok_def split: cell.splits)

text \<open>
  Claim C2, as stated, fails. In the batch of the two triplets (Apple, acquired,
  DarwinAI) without a confidence and (Microsoft, invested in, OpenAI) with confidence
  0.92, the first triplet is in the deduplicated batch and has no confidence, and the
  filter with threshold 0.7 drops it: the frame has a confidence column because the
  second triplet has the key, and the comparison is false on the missing cell.
\<close>

theorem filter_confidence_counterexample:
  "raw_triplet ''Apple'' ''acquired'' ''DarwinAI'' Absent
     \<in> set (rows (drop_duplicates (DataFrame
          [raw_triplet ''Apple'' ''acquired'' ''DarwinAI'' Absent,
           raw_triplet ''Microsoft'' ''invested in'' ''OpenAI'' (Value 0.92)])))
   \<and> confidence (raw_triplet ''Apple'' ''acquired'' ''DarwinAI'' Absent) = Absent
   \<and> raw_triplet ''Apple'' ''acquired'' ''DarwinAI'' Absent
     \<notin> set (rows (filter_confidence test_config (drop_duplicates (DataFrame
          [raw_triplet ''Apple'' ''acquired'' ''DarwinAI'' Absent,
           raw_triplet ''Microsoft'' ''invested in'' ''OpenAI'' (Value 0.92)]))))"
  by (simp add: filter_confidence_def has_column_def drop_duplicates_def DataFrame_def
      raw_triplet_def subset_key_def confidence_ok_def)

text \<open>
  Claim C2, amended. A triplet of the deduplicated batch survives the confidence
  filter if and only if no triplet of the raw batch has the key \<open>confidence\<close> (the frame
  then has no confidence column and the filter is skipped), or its own confidence is a
  number greater than or equal to the threshold. The boundary is inclusive. As soon as
  some triplet of the raw batch has the key, be it with a null value, a triplet whose
  confidence is absent or null is dropped.
\<close>

theorem filter_confidence_survivors:
  assumes "t \<in> set (rows (drop_duplicates (DataFrame triplets)))"
  shows "(t \<in> set (rows (filter_confidence cfg (drop_duplicates (DataFrame triplets))))) =
     ((\<forall>u \<in> set triplets. confidence u = Absent)
      \<or> (\<exists>c. confidence t = Value c \<and> confidence_threshold cfg \<le> c))"
  using assms
  by (auto simp: filter_confidence_rows has_column_drop_duplicates list_ex_iff)

theorem filter_confidence_survivors_witness:
  "raw_triplet ''Apple'' ''acquired'' ''DarwinAI'' (Value 0.7)
     \<in> set (rows (filter_confidence test_config (drop_duplicates (DataFrame
          [raw_triplet ''Apple'' ''acquired'' ''DarwinAI'' (Value 0.7),
           raw_triplet ''Tesla'' ''launched'' ''Model Y'' (Value 0.6)]))))
   \<and> raw_triplet ''Tesla'' ''launched'' ''Model Y'' (Value 0.6)
     \<notin> set (rows (filter_confidence test_config (drop_duplicates (DataFrame
          [raw_triplet ''Apple'' ''acquired'' ''DarwinAI'' (Value 0.7),
           raw_triplet ''Tesla'' ''launched'' ''Model Y'' (Value 0.6)]))))
   \<and> raw_triplet ''Apple'' ''acquired'' ''DarwinAI'' Absent
     \<in> set (rows (filter_confidence test_config (drop_duplicates (DataFrame
          [raw_triplet ''Apple'' ''acquired'' ''DarwinAI'' Absent]))))
   \<and> raw_triplet ''Apple'' ''acquired'' ''DarwinAI'' Null
     \<notin> set (rows (filter_confidence test_config (drop_duplicates (DataFrame
          [raw_triplet ''Apple'' ''acquired'' ''DarwinAI'' Null]))))"
proof -
  let ?a = "raw_triplet ''Apple'' ''acquired'' ''DarwinAI'' (Value 0.7)"
  let ?b = "raw_triplet ''Tesla'' ''launched'' ''Model Y'' (Value 0.6)"
  let ?n = "raw_triplet ''Apple'' ''acquired'' ''DarwinAI'' Absent"
  let ?z = "raw_triplet ''Apple'' ''acquired'' ''DarwinAI'' Null"
  have rows2: "rows (drop_duplicates (DataFrame [?a, ?b])) = [?a, ?b]"
    by (simp add: drop_duplicates_def DataFrame_def raw_triplet_def subset_key_def)
  have rows1: "rows (drop_duplicates (DataFrame [?n])) = [?n]"
    by (simp add: drop_duplicates_def DataFrame_def)
  have rows0: "rows (drop_duplicates (DataFrame [?z])) = [?z]"
    by (simp add: drop_duplicates_def DataFrame_def)
  have in_a: "?a \<in> set (rows (drop_duplicates (DataFrame [?a, ?b])))"
    and in_b: "?b \<in> set (rows (drop_duplicates (DataFrame [?a, ?b])))"
    unfolding rows2 by simp_all
  have in_n: "?n \<in> set (rows (drop_duplicates (DataFrame [?n])))"
    unfolding rows1 by simp
  have in_z: "?z \<in> set (rows (drop_duplicates (DataFrame [?z])))"
    unfolding rows0 by simp
  have conf_a: "confidence ?a = Value 0.7 \<and> confidence_threshold test_config \<le> 0.7"
    by (simp add: raw_triplet_def test_config_def)
  have "?a \<in> set (rows (filter_confidence test_config (drop_duplicates (DataFrame [?a, ?b]))))"
    unfolding filter_confidence_survivors [OF in_a] using conf_a by blast
  moreover have "\<not> ((\<forall>u \<in> set [?a, ?b]. confidence u = Absent)
      \<or> (\<exists>c. confidence ?b = Value c \<and> confidence_threshold test_config \<le> c))"
    by (simp add: raw_triplet_def test_config_def)
  then have "?b \<notin> set (rows (filter_confidence test_config (drop_duplicates (DataFrame [?a, ?b]))))"
    unfolding filter_confidence_survivors [OF in_b] .
  moreover have "\<forall>u \<in> set [?n]. confidence u = Absent"
    by (simp add: raw_triplet_def)
  then have "?n \<in> set (rows (filter_confidence test_config (drop_duplicates (DataFrame [?n]))))"
    unfolding filter_confidence_survivors [OF in_n] by blast
  moreover have "\<not> ((\<forall>u \<in> set [?z]. confidence u = Absent)
      \<or> (\<exists>c. confidence ?z = Value c \<and> confidence_threshold test_config \<le> c))"
    by (simp add: raw_triplet_def)
  then have "?z \<notin> set (rows (filter_confidence test_config (drop_duplicates (DataFrame [?z]))))"
    unfolding filter_confidence_survivors [OF in_z] .
  ultimately show ?thesis by blast
qed

subsection \<open>The self-reference filter\<close>

lemma set_rows_sort_values: "set (rows (sort_values df)) = set (rows df)"
  by (auto simp: sort_values_def)

lemma set_rows_sort_by_confidence: "set (rows (sort_by_confidence df)) = set (rows df)"
  by (simp add: sort_by_confidence_def set_rows_sort_values)

lemma add_entity_types_keeps_names:
  "t \<in> set (rows (add_entity_types df)) \<Longrightarrow>
   \<exists>u \<in> set (rows df). head t = head u \<and> tail t = tail u \<and> relation t = relation u
      \<and> confidence t = confidence u"
  by (auto simp: add_entity_types_def Let_def split: if_splits)

lemma remove_self_references_rows:
  "t \<in> set (rows (remove_self_references df)) \<Longrightarrow> head t \<noteq> tail t"
  by (simp add: remove_self_references_def)

lemma clean_triplets_head_tail:
  assumes "t \<in> set (rows (clean_triplets cfg triplets))"
  shows "head t \<noteq> tail t"
proof (cases "triplets = []")
  case True
  with assms show ?thesis by (simp add: clean_triplets_def)
next
  case False
  then have ne: "\<not> empty (DataFrame triplets)"
    by (simp add: empty_def DataFrame_def)
  define df where "df = remove_self_references (remove_invalid_relations cfg
     (clean_entity_names (standardize_relations (filter_confidence cfg
        (drop_duplicates (DataFrame triplets))))))"
  from assms False ne have "t \<in> set (rows (sort_by_confidence (add_entity_types df)))"
    by (simp add: clean_triplets_def Let_def df_def)
  then have "t \<in> set (rows (add_entity_types df))"
    by (simp add: set_rows_sort_by_confidence)
  then obtain u where u: "u \<in> set (rows df)" "head t = head u" "tail t = tail u"
    using add_entity_types_keeps_names by blast
  from u(1) have "head u \<noteq> tail u"
    unfolding df_def by (rule remove_self_references_rows)
  with u show ?thesis by simp
qed

lemma rows_clean_entity_names_self:
  "t \<in> set (rows (clean_entity_names df)) \<Longrightarrow>
   \<exists>u \<in> set (rows df). head t = Some (clean_entity_name (head u))
       \<and> tail t = Some (clean_entity_name (tail u))"
  by (auto simp: clean_entity_names_def)

lemma drop_seen_subset: "set (drop_seen seen ts) \<subseteq> set ts"
  by (induction seen ts rule: drop_seen.induct) auto

lemma rows_drop_duplicates_subset: "set (rows (drop_duplicates df)) \<subseteq> set (rows df)"
  by (simp add: drop_duplicates_def drop_seen_subset)

lemma rows_filter_confidence_subset: "set (rows (filter_confidence cfg df)) \<subseteq> set (rows df)"
  by (auto simp: filter_confidence_def)

lemma rows_standardize_relations_names:
  "t \<in> set (rows (standardize_relations df)) \<Longrightarrow>
   \<exists>u \<in> set (rows df). head t = head u \<and> tail t = tail u"
  by (auto simp: standardize_relations_def)

lemma clean_triplets_all_self_references:
  assumes "\<forall>t \<in> set triplets. clean_entity_name (head t) = clean_entity_name (tail t)"
  shows "rows (clean_triplets cfg triplets) = []"
proof (cases "triplets = []")
  case True
  then show ?thesis by (simp add: clean_triplets_def)
next
  case False
  then have ne: "\<not> empty (DataFrame triplets)"
    by (simp add: empty_def DataFrame_def)
  define d1 where "d1 = filter_confidence cfg (drop_duplicates (DataFrame triplets))"
  define d2 where "d2 = clean_entity_names (standardize_relations d1)"
  have sub: "set (rows d1) \<subseteq> set triplets"
    using rows_filter_confidence_subset rows_drop_duplicates_subset
    unfolding d1_def by (fastforce simp: DataFrame_def)
  have eq: "head t = tail t" if "t \<in> set (rows d2)" for t
  proof -
    from that obtain u where u: "u \<in> set (rows (standardize_relations d1))"
      "head t = Some (clean_entity_name (head u))" "tail t = Some (clean_entity_name (tail u))"
      unfolding d2_def using rows_clean_entity_names_self by blast
    from u(1) obtain v where v: "v \<in> set (rows d1)" "head u = head v" "tail u = tail v"
      using rows_standardize_relations_names by blast
    with sub assms have "clean_entity_name (head v) = clean_entity_name (tail v)" by blast
    with u v show ?thesis by simp
  qed
  have "rows (remove_self_references (remove_invalid_relations cfg d2)) = []"
    using eq
    by (auto simp: remove_self_references_def remove_invalid_relations_def filter_empty_conv)
  then have "rows (sort_by_confidence (add_entity_types
     (remove_self_references (remove_invalid_relations cfg d2)))) = []"
    by (simp add: sort_by_confidence_def sort_values_def add_entity_types_def Let_def)
  with False ne show ?thesis
    by (simp add: clean_triplets_def Let_def d1_def d2_def)
qed

text \<open>
  Claim C7. Every record that \<open>clean_triplets\<close> returns has a head different from its
  tail, the names being the cleaned ones. A batch in which every triplet has the same
  cleaned head and tail, such as the single triplet (Apple, FOUNDED, Apple), leaves no
  record, whatever the confidences and the configuration are.
\<close>

theorem clean_triplets_no_self_reference:
  "(\<forall>t \<in> set (rows (clean_triplets cfg triplets)). head t \<noteq> tail t)
   \<and> ((\<forall>t \<in> set triplets. clean_entity_name (head t) = clean_entity_name (tail t))
        \<longrightarrow> rows (clean_triplets cfg triplets) = [])"
  using clean_triplets_head_tail clean_triplets_all_self_references by blast

theorem clean_triplets_no_self_reference_witness:
  "rows (clean_triplets
      \<lparr>confidence_threshold = 0.7, relation_types = [''FOUNDED''], llm_mode = ''local''\<rparr>
      [raw_triplet ''Apple'' ''FOUNDED'' ''Apple'' (Value 0.99)]) = []
   \<and> head (hd (rows (clean_triplets test_config
        [raw_triplet ''Apple'' ''acquired'' ''DarwinAI'' (Value 0.9)])))
     \<noteq> tail (hd (rows (clean_triplets test_config
        [raw_triplet ''Apple'' ''acquired'' ''DarwinAI'' (Value 0.9)])))"
proof -
  let ?cfg = "\<lparr>confidence_threshold = 0.7, relation_types = [''FOUNDED''], llm_mode = ''local''\<rparr>"
  let ?loop = "raw_triplet ''Apple'' ''FOUNDED'' ''Apple'' (Value 0.99)"
  let ?ok = "raw_triplet ''Apple'' ''acquired'' ''DarwinAI'' (Value 0.9)"
  have "\<forall>t \<in> set [?loop]. clean_entity_name (head t) = clean_entity_name (tail t)"
    by (simp add: raw_triplet_def)
  with clean_triplets_no_self_reference [of ?cfg "[?loop]"]
  have gone: "rows (clean_triplets ?cfg [?loop]) = []"
    by blast
  have out: "rows (clean_triplets test_config [?ok]) =
      [\<lparr>head = Some ''Apple'', relation = Some ''ACQUIRED'', tail = Some ''DarwinAI'',
        confidence = Value 0.9, head_type = Value ''ENTITY'', tail_type = Value ''ENTITY''\<rparr>]"
    by code_simp
  then have "hd (rows (clean_triplets test_config [?ok])) \<in> set (rows (clean_triplets test_config [?ok]))"
    by simp
  with clean_triplets_no_self_reference [of test_config "[?ok]"]
  have "head (hd (rows (clean_triplets test_config [?ok])))
      \<noteq> tail (hd (rows (clean_triplets test_config [?ok])))"
    by blast
  with gone show ?thesis by blast
qed


subsection \<open>The output is a canonical table\<close>

text \<open>
  When the raw triplets carry their types all or not at all, the frame that
  \<open>clean_triplets\<close> returns is empty or canonical: it has the key columns and the type
  columns, and no row misses a name, a relation or a type.
\<close>

lemma columns_steps:
  "columns (drop_duplicates df) = columns df"
  "columns (filter_confidence cfg df) = columns df"
  "columns (standardize_relations df) = columns df"
  "columns (clean_entity_names df) = columns df"
  "columns (remove_invalid_relations cfg df) = columns df"
  "columns (remove_self_references df) = columns df"
  "columns (sort_by_confidence df) = columns df"
  by (simp_all add: drop_duplicates_def filter_confidence_def standardize_relations_def
      clean_entity_names_def remove_invalid_relations_def remove_self_references_def
      sort_by_confidence_def sort_values_def)

lemma rows_remove_invalid_subset: "set (rows (remove_invalid_relations cfg df)) \<subseteq> set (rows df)"
  by (auto simp: remove_invalid_relations_def)

lemma rows_remove_self_subset: "set (rows (remove_self_references df)) \<subseteq> set (rows df)"
  by (auto simp: remove_self_references_def)

lemma rows_renamed:
  assumes "r \<in> set (rows (clean_entity_names (standardize_relations df)))"
  shows "\<exists>t \<in> set (rows df). head r \<noteq> None \<and> relation r \<noteq> None \<and> tail r \<noteq> None
     \<and> head_type r = head_type t \<and> tail_type r = tail_type t"
  using assms by (auto simp: clean_entity_names_def standardize_relations_def)

lemma rows_before_types:
  assumes "r \<in> set (rows (remove_self_references (remove_invalid_relations cfg
     (clean_entity_names (standardize_relations (filter_confidence cfg
        (drop_duplicates (DataFrame triplets))))))))"
  shows "\<exists>t \<in> set triplets. head r \<noteq> None \<and> relation r \<noteq> None \<and> tail r \<noteq> None
     \<and> head_type r = head_type t \<and> tail_type r = tail_type t"
proof -
  from assms have "r \<in> set (rows (clean_entity_names (standardize_relations
      (filter_confidence cfg (drop_duplicates (DataFrame triplets))))))"
    using rows_remove_self_subset rows_remove_invalid_subset by blast
  from rows_renamed [OF this] obtain t
    where t: "t \<in> set (rows (filter_confidence cfg (drop_duplicates (DataFrame triplets))))"
      "head r \<noteq> None \<and> relation r \<noteq> None \<and> tail r \<noteq> None
        \<and> head_type r = head_type t \<and> tail_type r = tail_type t"
    by blast
  from t(1) have "t \<in> set triplets"
    using rows_filter_confidence_subset rows_drop_duplicates_subset
    by (fastforce simp: DataFrame_def)
  with t(2) show ?thesis by blast
qed

lemma canonical_add_entity_types:
  assumes cols: "has_column df Head" "has_column df Relation" "has_column df Tail"
    and rows: "\<forall>r \<in> set (rows df). head r \<noteq> None \<and> relation r \<noteq> None \<and> tail r \<noteq> None
        \<and> (has_column df Head_type \<longrightarrow> \<not> missing (head_type r))
        \<and> (has_column df Tail_type \<longrightarrow> \<not> missing (tail_type r))"
  shows "canonical (add_entity_types df)"
  using assms
  by (auto simp: canonical_def canonical_row_def add_entity_types_def has_column_def
      Let_def list_all_iff)

lemma canonical_sort_by_confidence: "canonical df \<Longrightarrow> canonical (sort_by_confidence df)"
  by (simp add: canonical_def canonical_row_def has_column_def columns_steps list_all_iff
      set_rows_sort_by_confidence)

lemma clean_triplets_canonical:
  assumes ht: "list_all (\<lambda>t. head_type t = Absent) triplets
      \<or> list_all (\<lambda>t. \<not> missing (head_type t)) triplets"
    and tt: "list_all (\<lambda>t. tail_type t = Absent) triplets
      \<or> list_all (\<lambda>t. \<not> missing (tail_type t)) triplets"
  shows "empty (clean_triplets cfg triplets) \<or> canonical (clean_triplets cfg triplets)"
proof (cases "triplets = []")
  case True
  then show ?thesis by (simp add: clean_triplets_def empty_def)
next
  case False
  then have ne: "\<not> empty (DataFrame triplets)"
    by (simp add: empty_def DataFrame_def)
  define df where "df = remove_self_references (remove_invalid_relations cfg
     (clean_entity_names (standardize_relations (filter_confidence cfg
        (drop_duplicates (DataFrame triplets))))))"
  have cols: "columns df = columns (DataFrame triplets)"
    by (simp add: df_def columns_steps)
  have key_cols: "has_column df Head" "has_column df Relation" "has_column df Tail"
    using False by (simp_all add: has_column_def cols DataFrame_def)
  have hcol: "has_column df Head_type = list_ex (\<lambda>t. head_type t \<noteq> Absent) triplets"
    and tcol: "has_column df Tail_type = list_ex (\<lambda>t. tail_type t \<noteq> Absent) triplets"
    using False by (auto simp: has_column_def cols DataFrame_def)
  have "\<forall>r \<in> set (rows df). head r \<noteq> None \<and> relation r \<noteq> None \<and> tail r \<noteq> None
        \<and> (has_column df Head_type \<longrightarrow> \<not> missing (head_type r))
        \<and> (has_column df Tail_type \<longrightarrow> \<not> missing (tail_type r))"
  proof
    fix r assume "r \<in> set (rows df)"
    then obtain t where t: "t \<in> set triplets" "head r \<noteq> None" "relation r \<noteq> None" "tail r \<noteq> None"
      "head_type r = head_type t" "tail_type r = tail_type t"
      unfolding df_def using rows_before_types by blast
    have "has_column df Head_type \<longrightarrow> \<not> missing (head_type r)"
      using ht t(1,5) unfolding hcol list_all_iff list_ex_iff by auto
    moreover have "has_column df Tail_type \<longrightarrow> \<not> missing (tail_type r)"
      using tt t(1,6) unfolding tcol list_all_iff list_ex_iff by auto
    ultimately show "head r \<noteq> None \<and> relation r \<noteq> None \<and> tail r \<noteq> None
        \<and> (has_column df Head_type \<longrightarrow> \<not> missing (head_type r))
        \<and> (has_column df Tail_type \<longrightarrow> \<not> missing (tail_type r))"
      using t by blast
  qed
  with key_cols have "canonical (add_entity_types df)"
    by (rule canonical_add_entity_types)
  then have "canonical (sort_by_confidence (add_entity_types df))"
    by (rule canonical_sort_by_confidence)
  with False ne show ?thesis
    by (simp add: clean_triplets_def Let_def df_def)
qed


section \<open>The graph store: merging by identity\<close>


lemma first_index_map: "first_index P (map f xs) = first_index (\<lambda>x. P (f x)) xs"
  by (induction xs) auto

lemma first_index_None: "(first_index P xs = None) = (\<forall>x \<in> set xs. \<not> P x)"
  by (induction xs) auto

lemma first_index_Some:
  "first_index P xs = Some i \<Longrightarrow> i < length xs \<and> P (xs ! i)"
proof (induction xs arbitrary: i)
  case Nil
  then show ?case by simp
next
  case (Cons x xs)
  then show ?case by (cases "P x") auto
qed

lemma first_index_eq_mem: "first_index (\<lambda>k. k = x) xs = Some i \<Longrightarrow> x \<in> set xs"
  using first_index_Some [of "\<lambda>k. k = x" xs i] by auto

lemma first_index_mem_eq: "x \<in> set xs \<Longrightarrow> \<exists>i. first_index (\<lambda>k. k = x) xs = Some i"
  using first_index_None [of "\<lambda>k. k = x" xs] by (cases "first_index (\<lambda>k. k = x) xs") auto

lemma first_index_append_Some:
  "first_index P xs = Some i \<Longrightarrow> first_index P (xs @ ys) = Some i"
  by (induction xs arbitrary: i) (auto split: if_splits)

lemma first_index_snoc_None:
  "first_index P xs = None \<Longrightarrow>
   first_index P (xs @ [y]) = (if P y then Some (length xs) else None)"
  by (induction xs) (auto split: if_splits)

lemma match_entity_fun: "match_entity n = (\<lambda>v. entity_key v = (True, n))"
  by (rule ext) (auto simp: match_entity_def entity_key_def)

lemma match_relationship_fun:
  "match_relationship h r t = (\<lambda>e. relationship_key e = (h, r, t))"
  by (rule ext) (auto simp: match_relationship_def relationship_key_def)

lemma first_index_entity:
  "first_index (match_entity n) (nodes g) = first_index (\<lambda>k. k = (True, n)) (entity_keys g)"
  by (simp add: entity_keys_def first_index_map match_entity_fun)

lemma merge_entity_keys_both:
  assumes "merge_entity n g = (i, g')"
  shows "entity_keys g' = upsert (True, n) (entity_keys g)
     \<and> first_index (\<lambda>k. k = (True, n)) (entity_keys g') = Some i"
proof (cases "first_index (\<lambda>k. k = (True, n)) (entity_keys g)")
  case None
  then have notin: "(True, n) \<notin> set (entity_keys g)"
    by (auto simp: first_index_None)
  from None assms have g': "i = length (nodes g)"
    "g' = g\<lparr>nodes := nodes g @ [\<lparr>node_labels = [''Entity''], node_name = n, node_type = None\<rparr>]\<rparr>"
    by (auto simp: merge_entity_def first_index_entity)
  then have keys: "entity_keys g' = entity_keys g @ [(True, n)]"
    by (simp add: entity_keys_def entity_key_def)
  have "length (entity_keys g) = length (nodes g)"
    by (simp add: entity_keys_def)
  with None g'(1) have "first_index (\<lambda>k. k = (True, n)) (entity_keys g @ [(True, n)]) = Some i"
    by (simp add: first_index_snoc_None)
  with notin show ?thesis
    by (simp add: keys upsert_def)
next
  case (Some j)
  with assms have "i = j" "g' = g"
    by (auto simp: merge_entity_def first_index_entity)
  with Some show ?thesis
    by (auto simp: upsert_def dest: first_index_eq_mem)
qed

lemma merge_entity_keys:
  assumes "merge_entity n g = (i, g')"
  shows "entity_keys g' = upsert (True, n) (entity_keys g)"
    and "relationship_keys g' = relationship_keys g"
    and "first_index (\<lambda>k. k = (True, n)) (entity_keys g') = Some i"
proof -
  show "relationship_keys g' = relationship_keys g"
    using assms by (auto simp: merge_entity_def relationship_keys_def split: option.splits)
  show "entity_keys g' = upsert (True, n) (entity_keys g)"
    and "first_index (\<lambda>k. k = (True, n)) (entity_keys g') = Some i"
    using merge_entity_keys_both [OF assms] by blast+
qed

lemma set_type_keys:
  "entity_keys (set_type i t g) = entity_keys g"
  "relationship_keys (set_type i t g) = relationship_keys g"
  by (auto simp: set_type_def entity_keys_def relationship_keys_def entity_key_def
      map_update list_update_same_conv)

lemma add_type_label_keys:
  assumes "i < length (entity_keys g)" and "fst (entity_keys g ! i)"
  shows "entity_keys (add_type_label i g) = entity_keys g"
  using assms
  by (auto simp: add_type_label_def entity_keys_def entity_key_def
      map_update list_update_same_conv split: option.splits)

lemma add_type_label_relationship_keys:
  "relationship_keys (add_type_label i g) = relationship_keys g"
  by (auto simp: add_type_label_def relationship_keys_def split: option.splits)

lemma merge_relationship_keys:
  "entity_keys (merge_relationship h r t c now g) = entity_keys g"
  "relationship_keys (merge_relationship h r t c now g) = upsert (h, r, t) (relationship_keys g)"
proof -
  show "entity_keys (merge_relationship h r t c now g) = entity_keys g"
    by (simp add: merge_relationship_def entity_keys_def)
  have same: "map relationship_key
      (map (\<lambda>e. if relationship_key e = (h, r, t)
                then e\<lparr>rel_confidence := c, rel_source := ''extracted'', rel_created := now\<rparr>
                else e) es) = map relationship_key es" for es
    by (induction es) (auto simp: relationship_key_def)
  have ex: "list_ex (\<lambda>e. relationship_key e = (h, r, t)) (relationships g) =
      ((h, r, t) \<in> set (relationship_keys g))"
    by (force simp: list_ex_iff relationship_keys_def)
  show "relationship_keys (merge_relationship h r t c now g) = upsert (h, r, t) (relationship_keys g)"
  proof (cases "(h, r, t) \<in> set (relationship_keys g)")
    case True
    then have "relationships (merge_relationship h r t c now g) =
        map (\<lambda>e. if relationship_key e = (h, r, t)
                  then e\<lparr>rel_confidence := c, rel_source := ''extracted'', rel_created := now\<rparr>
                  else e) (relationships g)"
      unfolding merge_relationship_def match_relationship_fun ex by simp
    then have "relationship_keys (merge_relationship h r t c now g) = relationship_keys g"
      by (simp only: relationship_keys_def same)
    with True show ?thesis
      by (simp add: upsert_def)
  next
    case False
    then show ?thesis
      unfolding merge_relationship_def match_relationship_fun ex
      by (simp add: upsert_def relationship_keys_def relationship_key_def)
  qed
qed

lemma upsert_mem: "x \<in> set (upsert x xs)"
  by (simp add: upsert_def)

lemma upsert_mono: "y \<in> set xs \<Longrightarrow> y \<in> set (upsert x xs)"
  by (simp add: upsert_def)

lemma upsert_id: "x \<in> set xs \<Longrightarrow> upsert x xs = xs"
  by (simp add: upsert_def)

lemma first_index_upsert:
  "first_index P xs = Some i \<Longrightarrow> first_index P (upsert x xs) = Some i"
  by (simp add: upsert_def first_index_append_Some)

lemma merge_triplet_keys:
  assumes "first_index (\<lambda>k. k = (True, h)) (upsert (True, h) (entity_keys g)) = Some i"
    and "first_index (\<lambda>k. k = (True, t)) (upsert (True, t) (upsert (True, h) (entity_keys g))) = Some j"
  shows "entity_keys (merge_triplet now h ht t tt r c g) =
      upsert (True, t) (upsert (True, h) (entity_keys g))"
    and "relationship_keys (merge_triplet now h ht t tt r c g) =
      upsert (i, r, j) (relationship_keys g)"
proof -
  obtain i' g1 where m1: "merge_entity h g = (i', g1)" by force
  define g2 where "g2 = set_type i' ht g1"
  obtain j' g3 where m2: "merge_entity t g2 = (j', g3)" by force
  define g4 where "g4 = set_type j' tt g3"
  define g5 where "g5 = add_type_label i' g4"
  define g6 where "g6 = add_type_label j' g5"
  have res: "merge_triplet now h ht t tt r c g = merge_relationship i' r j' c now g6"
    by (simp add: merge_triplet_def m1 m2 [unfolded g2_def] g2_def g4_def g5_def g6_def Let_def)
  have k1: "entity_keys g1 = upsert (True, h) (entity_keys g)"
    and i1: "first_index (\<lambda>k. k = (True, h)) (entity_keys g1) = Some i'"
    and r1: "relationship_keys g1 = relationship_keys g"
    using merge_entity_keys [OF m1] by simp_all
  have k2: "entity_keys g2 = entity_keys g1" and r2: "relationship_keys g2 = relationship_keys g1"
    by (simp_all add: g2_def set_type_keys)
  have k3: "entity_keys g3 = upsert (True, t) (entity_keys g2)"
    and j3: "first_index (\<lambda>k. k = (True, t)) (entity_keys g3) = Some j'"
    and r3: "relationship_keys g3 = relationship_keys g2"
    using merge_entity_keys [OF m2] by simp_all
  have k4: "entity_keys g4 = entity_keys g3" and r4: "relationship_keys g4 = relationship_keys g3"
    by (simp_all add: g4_def set_type_keys)
  from i1 assms(1) have i: "i' = i" by (simp add: k1)
  from j3 assms(2) have j: "j' = j" by (simp add: k3 k2 k1)
  from i1 have i3: "first_index (\<lambda>k. k = (True, h)) (entity_keys g4) = Some i'"
    by (simp add: k4 k3 k2 first_index_upsert)
  from first_index_Some [OF i3] have "i' < length (entity_keys g4)" "fst (entity_keys g4 ! i')"
    by simp_all
  then have k5: "entity_keys g5 = entity_keys g4"
    unfolding g5_def by (rule add_type_label_keys)
  from j3 have "first_index (\<lambda>k. k = (True, t)) (entity_keys g5) = Some j'"
    by (simp add: k5 k4)
  from first_index_Some [OF this] have "j' < length (entity_keys g5)" "fst (entity_keys g5 ! j')"
    by simp_all
  then have k6: "entity_keys g6 = entity_keys g5"
    unfolding g6_def by (rule add_type_label_keys)
  have r6: "relationship_keys g6 = relationship_keys g"
    by (simp add: g6_def g5_def add_type_label_relationship_keys r4 r3 r2 r1)
  show "entity_keys (merge_triplet now h ht t tt r c g) =
      upsert (True, t) (upsert (True, h) (entity_keys g))"
    by (simp add: res merge_relationship_keys k6 k5 k4 k3 k2 k1)
  show "relationship_keys (merge_triplet now h ht t tt r c g) =
      upsert (i, r, j) (relationship_keys g)"
    by (simp add: res merge_relationship_keys r6 i j)
qed




lemma index_of_upsert: "index_of x xs = Some i \<Longrightarrow> index_of x (upsert y xs) = Some i"
  by (simp add: index_of_def first_index_upsert)

lemma index_of_upsert_self: "\<exists>i. index_of x (upsert x xs) = Some i"
  unfolding index_of_def by (rule first_index_mem_eq) (rule upsert_mem)

lemma index_of_mem: "index_of x xs = Some i \<Longrightarrow> x \<in> set xs"
  unfolding index_of_def by (rule first_index_eq_mem)

lemma merge_triplet_key_step:
  "keys (merge_triplet now h ht t tt r c g) = key_step h r t (keys g)"
proof -
  obtain i where i: "index_of (True, h) (upsert (True, h) (entity_keys g)) = Some i"
    using index_of_upsert_self [of "(True, h)" "entity_keys g"] by auto
  obtain j where j: "index_of (True, t) (upsert (True, t) (upsert (True, h) (entity_keys g))) = Some j"
    using index_of_upsert_self [of "(True, t)" "upsert (True, h) (entity_keys g)"] by auto
  from i have i': "index_of (True, h) (upsert (True, t) (upsert (True, h) (entity_keys g))) = Some i"
    by (rule index_of_upsert)
  from merge_triplet_keys [OF i [unfolded index_of_def] j [unfolded index_of_def]] i' j
  show ?thesis
    by (simp add: keys_def key_step_def)
qed

lemma key_step_present_id:
  assumes "present s h r t"
  shows "key_step h r t s = s"
proof -
  from assms obtain i j where ij: "index_of (True, h) (fst s) = Some i"
    "index_of (True, t) (fst s) = Some j" "(i, r, j) \<in> set (snd s)"
    by (auto simp: present_def)
  then have "upsert (True, t) (upsert (True, h) (fst s)) = fst s"
    by (simp add: upsert_id index_of_mem)
  with ij show ?thesis
    by (simp add: key_step_def Let_def upsert_id prod_eq_iff)
qed

lemma key_step_present: "present (key_step h r t s) h r t"
proof -
  let ?ek = "upsert (True, t) (upsert (True, h) (fst s))"
  obtain i where "index_of (True, h) (upsert (True, h) (fst s)) = Some i"
    using index_of_upsert_self [of "(True, h)" "fst s"] by auto
  then have i: "index_of (True, h) ?ek = Some i"
    by (rule index_of_upsert)
  obtain j where j: "index_of (True, t) ?ek = Some j"
    using index_of_upsert_self [of "(True, t)" "upsert (True, h) (fst s)"] by auto
  from i j show ?thesis
    by (auto simp: key_step_def Let_def present_def upsert_mem)
qed

lemma key_step_mono:
  assumes "present s h' r' t'"
  shows "present (key_step h r t s) h' r' t'"
proof -
  let ?ek = "upsert (True, t) (upsert (True, h) (fst s))"
  from assms obtain i j where ij: "index_of (True, h') (fst s) = Some i"
    "index_of (True, t') (fst s) = Some j" "(i, r', j) \<in> set (snd s)"
    by (auto simp: present_def)
  then have ek: "index_of (True, h') ?ek = Some i" "index_of (True, t') ?ek = Some j"
    by (simp_all add: index_of_upsert)
  have fst: "fst (key_step h r t s) = ?ek"
    by (simp add: key_step_def Let_def split: option.splits)
  have "(i, r', j) \<in> set (snd (key_step h r t s))"
    using ij(3) by (auto simp: key_step_def Let_def upsert_mono split: option.splits)
  with ek fst show ?thesis
    by (auto simp: present_def)
qed

lemma import_triplets_mono:
  "import_triplets now ps g = Inr g' \<Longrightarrow> present (keys g) h r t \<Longrightarrow> present (keys g') h r t"
proof (induction ps arbitrary: g)
  case Nil
  then show ?case by simp
next
  case (Cons p ps)
  from Cons.prems(1) obtain h0 ht t0 tt r0 where p: "head p = Some h0" "head_type p = Value ht"
    "tail p = Some t0" "tail_type p = Value tt" "relation p = Some r0"
    by (auto split: option.splits cell.splits)
  let ?g = "merge_triplet now h0 ht t0 tt r0 (number (confidence p)) g"
  from Cons.prems(1) p have "import_triplets now ps ?g = Inr g'" by simp
  moreover from Cons.prems(2) have "present (keys ?g) h r t"
    by (simp add: merge_triplet_key_step key_step_mono)
  ultimately show ?case by (rule Cons.IH)
qed

lemma import_triplets_present:
  "list_all parameter_ok ps \<Longrightarrow>
   \<exists>g'. import_triplets now ps g = Inr g' \<and> (\<forall>p \<in> set ps. present_row (keys g') p)"
proof (induction ps arbitrary: g)
  case Nil
  then show ?case by simp
next
  case (Cons p ps)
  from Cons.prems obtain h0 ht t0 tt r0 where p: "head p = Some h0" "head_type p = Value ht"
    "tail p = Some t0" "tail_type p = Value tt" "relation p = Some r0"
    by (auto simp: parameter_ok_def not_missing)
  let ?g = "merge_triplet now h0 ht t0 tt r0 (number (confidence p)) g"
  from Cons.prems have "list_all parameter_ok ps" by simp
  from Cons.IH [OF this, of ?g] obtain g' where g': "import_triplets now ps ?g = Inr g'"
    "\<forall>q \<in> set ps. present_row (keys g') q" by blast
  have "present (keys ?g) h0 r0 t0"
    by (simp add: merge_triplet_key_step key_step_present)
  with g'(1) have "present (keys g') h0 r0 t0"
    by (rule import_triplets_mono)
  then have "present_row (keys g') p"
    by (simp add: present_row_def p)
  with g' p show ?case by simp
qed

lemma import_triplets_same:
  "list_all parameter_ok ps \<Longrightarrow> \<forall>p \<in> set ps. present_row (keys g) p \<Longrightarrow>
   \<exists>g'. import_triplets now ps g = Inr g' \<and> keys g' = keys g"
proof (induction ps arbitrary: g)
  case Nil
  then show ?case by simp
next
  case (Cons p ps)
  from Cons.prems(1) obtain h0 ht t0 tt r0 where p: "head p = Some h0" "head_type p = Value ht"
    "tail p = Some t0" "tail_type p = Value tt" "relation p = Some r0"
    by (auto simp: parameter_ok_def not_missing)
  let ?g = "merge_triplet now h0 ht t0 tt r0 (number (confidence p)) g"
  from Cons.prems(2) p have "present (keys g) h0 r0 t0"
    by (simp add: present_row_def)
  then have same: "keys ?g = keys g"
    by (simp add: merge_triplet_key_step key_step_present_id)
  from Cons.prems have "list_all parameter_ok ps" "\<forall>q \<in> set ps. present_row (keys ?g) q"
    by (simp_all add: same)
  from Cons.IH [OF this] obtain g' where "import_triplets now ps ?g = Inr g'" "keys g' = keys ?g"
    by blast
  with p same show ?case by simp
qed




lemma parameter_ok_canonical:
  "canonical_row b row \<Longrightarrow> parameter_ok (triplet_parameter b row)"
  by (auto simp: canonical_row_def parameter_ok_def triplet_parameter_def split: if_splits)

lemma present_row_parameter: "present_row s (triplet_parameter b row) = present_row s row"
  by (simp add: present_row_def triplet_parameter_def)

lemma canonical_parameters:
  "canonical b \<Longrightarrow> list_all parameter_ok (map (triplet_parameter b) (rows b))"
  by (auto simp: canonical_def list_all_iff parameter_ok_canonical)

lemma import_batch_canonical:
  assumes "canonical b"
  shows "import_batch e k b g =
    (None, case session_run e k (ImportTriplets (map (triplet_parameter b) (rows b))) g of
             Inl x \<Rightarrow> g | Inr g' \<Rightarrow> g')"
  using assms by (auto simp: import_batch_def canonical_def split: sum.splits)

lemma session_run_import:
  "session_run e k (ImportTriplets ps) g =
     (if session_fails e k then Inl (DriverError ''session'') else import_triplets (clock e k) ps g)"
  by (simp add: session_run_def execute_def)

lemma import_batch_mono:
  assumes "present (keys g) h r t"
  shows "present (keys (snd (import_batch e k b g))) h r t"
proof -
  have "snd (import_batch e k b g) = g \<or>
    (\<exists>now ps. import_triplets now ps g = Inr (snd (import_batch e k b g)))"
    by (auto simp: import_batch_def session_run_import split: sum.splits)
  with assms show ?thesis
    by (auto dest: import_triplets_mono)
qed

lemma import_batch_present:
  assumes "canonical b" and "\<not> session_fails e k"
  shows "\<forall>row \<in> set (rows b). present_row (keys (snd (import_batch e k b g))) row"
proof -
  let ?ps = "map (triplet_parameter b) (rows b)"
  from import_triplets_present [OF canonical_parameters [OF assms(1)], of "clock e k" g]
  obtain g' where g': "import_triplets (clock e k) ?ps g = Inr g'"
    "\<forall>p \<in> set ?ps. present_row (keys g') p" by blast
  from g'(1) assms have "snd (import_batch e k b g) = g'"
    by (simp add: import_batch_canonical session_run_import)
  with g'(2) show ?thesis
    by (simp add: present_row_parameter)
qed

lemma import_batch_same:
  assumes "canonical b" and "\<forall>row \<in> set (rows b). present_row (keys g) row"
  shows "keys (snd (import_batch e k b g)) = keys g"
proof (cases "session_fails e k")
  case True
  with assms(1) show ?thesis
    by (simp add: import_batch_canonical session_run_import)
next
  case False
  let ?ps = "map (triplet_parameter b) (rows b)"
  from assms(2) have "\<forall>p \<in> set ?ps. present_row (keys g) p"
    by (simp add: present_row_parameter)
  from import_triplets_same [OF canonical_parameters [OF assms(1)] this, of "clock e k"]
  obtain g' where "import_triplets (clock e k) ?ps g = Inr g'" "keys g' = keys g" by blast
  with False assms(1) show ?thesis
    by (simp add: import_batch_canonical session_run_import)
qed

lemma import_batches_canonical:
  "\<forall>b \<in> set bs. canonical b \<Longrightarrow> fst (import_batches e k bs g) = None"
  by (induction bs arbitrary: k g) (auto simp: import_batch_canonical split: prod.splits option.splits)

lemma import_batches_mono:
  "present (keys g) h r t \<Longrightarrow> present (keys (snd (import_batches e k bs g))) h r t"
proof (induction bs arbitrary: k g)
  case Nil
  then show ?case by simp
next
  case (Cons b bs)
  from Cons.prems have "present (keys (snd (import_batch e k b g))) h r t"
    by (rule import_batch_mono)
  with Cons.IH show ?case
    by (cases "import_batch e k b g") (auto split: option.splits)
qed

lemma present_row_mono:
  assumes "\<And>h r t. present s h r t \<Longrightarrow> present s' h r t" and "present_row s row"
  shows "present_row s' row"
  using assms by (auto simp: present_row_def split: option.splits)

lemma import_batches_present:
  assumes "\<forall>b \<in> set bs. canonical b" and "\<forall>k. \<not> session_fails e k"
  shows "\<forall>b \<in> set bs. \<forall>row \<in> set (rows b). present_row (keys (snd (import_batches e k bs g))) row"
  using assms(1)
proof (induction bs arbitrary: k g)
  case Nil
  then show ?case by simp
next
  case (Cons b bs)
  obtain g1 where g1: "import_batch e k b g = (None, g1)"
    using Cons.prems by (simp add: import_batch_canonical)
  then have res: "import_batches e k (b # bs) g = import_batches e (Suc k) bs g1"
    by simp
  have first: "\<forall>row \<in> set (rows b). present_row (keys g1) row"
    using import_batch_present [of b e k g] Cons.prems assms(2) g1 by simp
  have "present_row (keys (snd (import_batches e (Suc k) bs g1))) row"
    if "row \<in> set (rows b)" for row
    using first that import_batches_mono present_row_mono by blast
  moreover have "\<forall>b' \<in> set bs. \<forall>row \<in> set (rows b').
      present_row (keys (snd (import_batches e (Suc k) bs g1))) row"
    using Cons.IH Cons.prems by simp
  ultimately show ?case
    unfolding res by simp
qed

lemma import_batches_same:
  assumes "\<forall>b \<in> set bs. canonical b"
    and "\<forall>b \<in> set bs. \<forall>row \<in> set (rows b). present_row (keys g) row"
  shows "keys (snd (import_batches e k bs g)) = keys g"
  using assms
proof (induction bs arbitrary: k g)
  case Nil
  then show ?case by simp
next
  case (Cons b bs)
  obtain g1 where g1: "import_batch e k b g = (None, g1)"
    using Cons.prems by (simp add: import_batch_canonical)
  have same: "keys g1 = keys g"
    using import_batch_same [of b g e k] Cons.prems g1 by simp
  with Cons.prems have "keys (snd (import_batches e (Suc k) bs g1)) = keys g1"
    by (intro Cons.IH) simp_all
  with g1 same show ?case by simp
qed

lemma execute_schema_keys:
  "execute CreateUniqueConstraint now g = Inr g' \<Longrightarrow> keys g' = keys g"
  "execute (CreateIndex l) now g = Inr g' \<Longrightarrow> keys g' = keys g"
  by (auto simp: execute_def keys_def entity_keys_def relationship_keys_def split: if_splits)

lemma session_run_schema_keys:
  "schema_statement stmt \<Longrightarrow> session_run e k stmt g = Inr g' \<Longrightarrow> keys g' = keys g"
  by (cases stmt) (auto simp: schema_statement_def session_run_def execute_schema_keys split: if_splits)

lemma run_all_schema_keys:
  "list_all schema_statement stmts \<Longrightarrow> keys (snd (run_all e k stmts g)) = keys g"
proof (induction stmts arbitrary: k g)
  case Nil
  then show ?case by simp
next
  case (Cons stmt stmts)
  then show ?case
    by (cases "session_run e k stmt g") (auto dest: session_run_schema_keys)
qed

lemma create_constraints_keys: "keys (snd (create_constraints e k g)) = keys g"
  unfolding create_constraints_def
  by (rule run_all_schema_keys) (simp add: schema_statement_def)

lemma create_constraints_empty:
  assumes "nodes g = []" and "\<forall>k. \<not> session_fails e k"
  shows "fst (create_constraints e k g) = None"
  using assms by (simp add: create_constraints_def session_run_def execute_def)

lemma canonical_iloc:
  assumes "canonical df"
  shows "canonical (iloc df i j)"
proof -
  have cols: "has_column (iloc df i j) = has_column df"
    by (rule ext) (simp add: has_column_def iloc_def)
  then have row: "canonical_row (iloc df i j) = canonical_row df"
    by (intro ext) (simp add: canonical_row_def)
  have "set (rows (iloc df i j)) \<subseteq> set (rows df)"
    by (auto simp: iloc_def dest: in_set_takeD in_set_dropD)
  with assms show ?thesis
    unfolding canonical_def cols row list_all_iff by blast
qed

lemma build_graph_no_clear:
  "\<not> empty df \<Longrightarrow> build_graph e df False g =
     (case create_constraints e 0 g of
        (Some x, g2) \<Rightarrow> (Some x, g2)
      | (None, g2) \<Rightarrow>
          import_batches e 4
            (map (\<lambda>i. iloc df i (i + batch_size)) (range_step (length (rows df)) batch_size)) g2)"
  by (auto simp: build_graph_def split: prod.splits option.splits)

lemma build_graph_twice:
  assumes can: "empty df \<or> canonical df"
    and empty_graph: "nodes g0 = []" "relationships g0 = []"
    and ok: "\<forall>k. \<not> session_fails e1 k"
  shows "fst (build_graph e1 df False g0) = None
    \<and> keys (snd (build_graph e2 df False (snd (build_graph e1 df False g0)))) =
         keys (snd (build_graph e1 df False g0))"
proof (cases "empty df")
  case True
  then show ?thesis
    by (simp_all add: build_graph_def)
next
  case False
  let ?bs = "map (\<lambda>i. iloc df i (i + batch_size)) (range_step (length (rows df)) batch_size)"
  have bs: "\<forall>b \<in> set ?bs. canonical b"
    using can False by (auto simp: canonical_iloc)
  obtain g1 where g1: "create_constraints e1 0 g0 = (None, g1)"
    using create_constraints_empty [OF empty_graph(1) ok, of 0]
    by (cases "create_constraints e1 0 g0") auto
  have run1: "build_graph e1 df False g0 = import_batches e1 4 ?bs g1"
    by (simp add: build_graph_no_clear [OF False] g1)
  have none: "fst (build_graph e1 df False g0) = None"
    by (simp add: run1 import_batches_canonical [OF bs])
  define g where "g = snd (import_batches e1 4 ?bs g1)"
  have pres: "\<forall>b \<in> set ?bs. \<forall>row \<in> set (rows b). present_row (keys g) row"
    unfolding g_def by (rule import_batches_present [OF bs ok])
  obtain x g2 where g2: "create_constraints e2 0 g = (x, g2)"
    by force
  have k2: "keys g2 = keys g"
    using create_constraints_keys [of e2 0 g] g2 by simp
  have "keys (snd (build_graph e2 df False g)) = keys g"
  proof (cases x)
    case None
    with g2 have "build_graph e2 df False g = import_batches e2 4 ?bs g2"
      by (simp add: build_graph_no_clear [OF False])
    moreover from pres have "\<forall>b \<in> set ?bs. \<forall>row \<in> set (rows b). present_row (keys g2) row"
      by (simp only: k2)
    ultimately show ?thesis
      using import_batches_same [OF bs, of g2 e2 4] k2 by simp
  next
    case (Some y)
    with g2 k2 show ?thesis
      by (simp add: build_graph_no_clear [OF False])
  qed
  with none show ?thesis
    by (simp add: run1 g_def)
qed


lemma upsert_distinct: "distinct xs \<Longrightarrow> distinct (upsert x xs)"
  by (simp add: upsert_def)

lemma key_step_distinct: "distinct_keys s \<Longrightarrow> distinct_keys (key_step h r t s)"
  by (auto simp: distinct_keys_def key_step_def Let_def upsert_distinct split: option.splits)

lemma import_triplets_distinct:
  "import_triplets now ps g = Inr g' \<Longrightarrow> distinct_keys (keys g) \<Longrightarrow> distinct_keys (keys g')"
proof (induction ps arbitrary: g)
  case Nil
  then show ?case by simp
next
  case (Cons p ps)
  from Cons.prems(1) obtain h0 ht t0 tt r0 where p: "head p = Some h0" "head_type p = Value ht"
    "tail p = Some t0" "tail_type p = Value tt" "relation p = Some r0"
    by (auto split: option.splits cell.splits)
  let ?g = "merge_triplet now h0 ht t0 tt r0 (number (confidence p)) g"
  from Cons.prems(1) p have "import_triplets now ps ?g = Inr g'" by simp
  moreover from Cons.prems(2) have "distinct_keys (keys ?g)"
    by (simp add: merge_triplet_key_step key_step_distinct)
  ultimately show ?case by (rule Cons.IH)
qed

lemma import_batch_distinct:
  assumes "distinct_keys (keys g)"
  shows "distinct_keys (keys (snd (import_batch e k b g)))"
proof -
  have "snd (import_batch e k b g) = g \<or>
    (\<exists>now ps. import_triplets now ps g = Inr (snd (import_batch e k b g)))"
    by (auto simp: import_batch_def session_run_import split: sum.splits)
  with assms show ?thesis
    by (auto dest: import_triplets_distinct)
qed

lemma import_batches_distinct:
  "distinct_keys (keys g) \<Longrightarrow> distinct_keys (keys (snd (import_batches e k bs g)))"
proof (induction bs arbitrary: k g)
  case Nil
  then show ?case by simp
next
  case (Cons b bs)
  from Cons.prems have "distinct_keys (keys (snd (import_batch e k b g)))"
    by (rule import_batch_distinct)
  with Cons.IH show ?case
    by (cases "import_batch e k b g") (auto split: option.splits)
qed

lemma build_graph_distinct:
  assumes "distinct_keys (keys g)"
  shows "distinct_keys (keys (snd (build_graph e df False g)))"
proof (cases "empty df")
  case True
  with assms show ?thesis by (simp add: build_graph_def)
next
  case False
  obtain x g2 where g2: "create_constraints e 0 g = (x, g2)" by force
  have "keys g2 = keys g"
    using create_constraints_keys [of e 0 g] g2 by simp
  with assms have "distinct_keys (keys g2)" by simp
  with g2 show ?thesis
    by (cases x) (simp_all add: build_graph_no_clear [OF False] import_batches_distinct)
qed

lemma keys_empty_graph:
  "nodes g = [] \<Longrightarrow> relationships g = [] \<Longrightarrow> distinct_keys (keys g)"
  by (simp add: distinct_keys_def keys_def entity_keys_def relationship_keys_def)

lemma totals_keys:
  "keys g = keys g' \<Longrightarrow> total_nodes g = total_nodes g' \<and> total_relationships g = total_relationships g'"
proof -
  assume "keys g = keys g'"
  then have "map entity_key (nodes g) = map entity_key (nodes g')"
    "map relationship_key (relationships g) = map relationship_key (relationships g')"
    by (simp_all add: keys_def entity_keys_def relationship_keys_def)
  then show ?thesis
    unfolding total_nodes_def total_relationships_def by (metis length_map)
qed

text \<open>
  Claim C1. Let a canonical triplet table (or an empty frame) be built into an empty
  graph, with no failure of the store, and then be built a second time without
  clearing, in any environment (other transaction times, store calls that fail). The first run raises
  nothing, and after the second run the number of nodes and the number of
  relationships are what they were after the first: the identities of the nodes (label
  \<open>Entity\<close> and name) and of the relationships (start node, \<open>type\<close>, end node) are the same
  lists, and no identity occurs twice. The second run overwrites the confidence, the
  source and the creation time of the relationships it merges.
\<close>

theorem build_graph_idempotent:
  assumes "empty df \<or> canonical df"
    and "nodes g0 = []" and "relationships g0 = []"
    and "\<forall>k. \<not> session_fails e1 k"
  shows "fst (build_graph e1 df False g0) = None
    \<and> total_nodes (snd (build_graph e2 df False (snd (build_graph e1 df False g0)))) =
        total_nodes (snd (build_graph e1 df False g0))
    \<and> total_relationships (snd (build_graph e2 df False (snd (build_graph e1 df False g0)))) =
        total_relationships (snd (build_graph e1 df False g0))
    \<and> entity_keys (snd (build_graph e2 df False (snd (build_graph e1 df False g0)))) =
        entity_keys (snd (build_graph e1 df False g0))
    \<and> relationship_keys (snd (build_graph e2 df False (snd (build_graph e1 df False g0)))) =
        relationship_keys (snd (build_graph e1 df False g0))
    \<and> distinct (entity_keys (snd (build_graph e1 df False g0)))
    \<and> distinct (relationship_keys (snd (build_graph e1 df False g0)))"
proof -
  let ?g1 = "snd (build_graph e1 df False g0)"
  let ?g2 = "snd (build_graph e2 df False ?g1)"
  from build_graph_twice [OF assms, of e2]
  have none: "fst (build_graph e1 df False g0) = None" and same: "keys ?g2 = keys ?g1"
    by blast+
  from same have "entity_keys ?g2 = entity_keys ?g1" "relationship_keys ?g2 = relationship_keys ?g1"
    by (simp_all add: keys_def)
  moreover from totals_keys [OF same]
  have "total_nodes ?g2 = total_nodes ?g1" "total_relationships ?g2 = total_relationships ?g1"
    by blast+
  moreover have "distinct_keys (keys ?g1)"
    by (rule build_graph_distinct) (rule keys_empty_graph [OF assms(2,3)])
  then have "distinct (entity_keys ?g1)" "distinct (relationship_keys ?g1)"
    by (simp_all add: distinct_keys_def keys_def)
  ultimately show ?thesis
    using none by blast
qed

lemma canonical_test_data: "canonical test_data"
  by code_simp

lemma test_data_first_run:
  "total_nodes (snd (build_graph reliable test_data False empty_store)) = 6
   \<and> total_relationships (snd (build_graph reliable test_data False empty_store)) = 3"
  by code_simp

theorem build_graph_idempotent_witness:
  "total_nodes (snd (build_graph reliable test_data False empty_store)) = 6
   \<and> total_relationships (snd (build_graph reliable test_data False empty_store)) = 3
   \<and> total_nodes (snd (build_graph \<lparr>session_fails = (\<lambda>k. False), clock = (\<lambda>k. 100 + k)\<rparr>
        test_data False (snd (build_graph reliable test_data False empty_store)))) = 6
   \<and> total_relationships (snd (build_graph \<lparr>session_fails = (\<lambda>k. False), clock = (\<lambda>k. 100 + k)\<rparr>
        test_data False (snd (build_graph reliable test_data False empty_store)))) = 3"
proof -
  have store: "nodes empty_store = []" "relationships empty_store = []"
    by (simp_all add: empty_store_def)
  have ok: "\<forall>k. \<not> session_fails reliable k"
    by (simp add: reliable_def)
  from build_graph_idempotent [OF disjI2 [OF canonical_test_data] store ok,
      of "\<lparr>session_fails = (\<lambda>k. False), clock = (\<lambda>k. 100 + k)\<rparr>"]
    test_data_first_run
  show ?thesis by simp
qed

text \<open>
  Claim C10. When the frame passed to \<open>build_graph\<close> is empty, the method returns at once,
  raising nothing and leaving the store as it was, whatever the flag \<open>clear_existing\<close>
  is and in every environment, also one in which each store call would fail: the
  database is not cleared and no constraint or index is created.
\<close>

theorem build_graph_empty_frame:
  "empty df \<Longrightarrow> build_graph e df clear_existing g = (None, g)"
  by (simp add: build_graph_def)

theorem build_graph_empty_frame_witness:
  "build_graph \<lparr>session_fails = (\<lambda>k. True), clock = (\<lambda>k. k)\<rparr> (clean_triplets test_config []) True
     \<lparr>nodes = [\<lparr>node_labels = [''Entity''], node_name = ''Apple'', node_type = None\<rparr>],
      relationships = [], unique_entity_name = False, indexes = []\<rparr> =
   (None,
    \<lparr>nodes = [\<lparr>node_labels = [''Entity''], node_name = ''Apple'', node_type = None\<rparr>],
     relationships = [], unique_entity_name = False, indexes = []\<rparr>)"
proof -
  have "empty (clean_triplets test_config [])"
    by (simp add: clean_triplets_def empty_def)
  then show ?thesis
    by (rule build_graph_empty_frame)
qed

section \<open>Query translation\<close>

lemma query_to_cypher_template:
  "first_key_contained query_templates (strip (lower question)) = Some template \<Longrightarrow>
   query_to_cypher cfg chat question use_llm = Some template"
  by (simp add: query_to_cypher_def)

lemma find_Some_list_ex: "list_ex P xs \<Longrightarrow> \<exists>x. find P xs = Some x"
  by (induction xs) auto

lemma query_to_cypher_first_template:
  assumes "list_ex (\<lambda>kv. str_in (fst kv) (strip (lower question))) query_templates"
  shows "\<exists>kv. find (\<lambda>kv. str_in (fst kv) (strip (lower question))) query_templates = Some kv
      \<and> query_to_cypher cfg chat question use_llm = Some (snd kv)"
proof -
  from find_Some_list_ex [OF assms] obtain kv
    where kv: "find (\<lambda>kv. str_in (fst kv) (strip (lower question))) query_templates = Some kv"
    by blast
  then have "first_key_contained query_templates (strip (lower question)) = Some (snd kv)"
    by (simp add: first_key_contained_find)
  with kv show ?thesis
    by (auto simp: query_to_cypher_template)
qed

lemma query_to_cypher_company_acquisitions:
  assumes "str_in ''company acquisitions'' (strip (lower question))"
  shows "query_to_cypher cfg chat question use_llm = Some company_acquisitions_query"
  using assms by (simp add: query_to_cypher_def query_templates_def)

lemma templates_parameter_free: "list_all (\<lambda>kv. CHR ''$'' \<notin> set (snd kv)) query_templates"
  by code_simp

text \<open>
  Claim C6. When the lower-cased and trimmed question contains a template phrase,
  \<open>query_to_cypher\<close> returns the query of the first such phrase in the order of the
  dictionary, whatever the configuration, the external model and the flag \<open>use_llm\<close>
  are: neither the external model nor the rules nor the default query take part in
  it. A question that contains "company acquisitions" gets the query of that
  template. No template query contains a parameter sign.
\<close>

theorem template_precedence:
  "(list_ex (\<lambda>kv. str_in (fst kv) (strip (lower question))) query_templates \<longrightarrow>
      (\<exists>kv. find (\<lambda>kv. str_in (fst kv) (strip (lower question))) query_templates = Some kv
         \<and> query_to_cypher cfg chat question use_llm = Some (snd kv)))
   \<and> (str_in ''company acquisitions'' (strip (lower question)) \<longrightarrow>
        query_to_cypher cfg chat question use_llm = Some company_acquisitions_query)
   \<and> list_all (\<lambda>kv. CHR ''$'' \<notin> set (snd kv)) query_templates"
  using query_to_cypher_first_template query_to_cypher_company_acquisitions
    templates_parameter_free by blast

lemma both_match_contains:
  "str_in ''company acquisitions''
     (strip (lower ''What companies did Apple acquire? Show company acquisitions''))"
  by code_simp

lemma both_match_rule:
  "rule_based_conversion ''What companies did Apple acquire? Show company acquisitions'' =
     Some (''MATCH (c:Company {name: '' @ [CHR 0x27] @ ''Apple'' @ [CHR 0x27]
            @ ''})-[:ACQUIRED]->(target) RETURN target.name'')"
  by code_simp

theorem template_precedence_witness:
  "query_to_cypher \<lparr>confidence_threshold = 0.7, relation_types = [], llm_mode = ''api''\<rparr>
      (\<lambda>prompt. Inr ''MATCH (n) RETURN n'')
      ''What companies did Apple acquire? Show company acquisitions'' True =
     Some company_acquisitions_query
   \<and> rule_based_conversion ''What companies did Apple acquire? Show company acquisitions'' =
     Some (''MATCH (c:Company {name: '' @ [CHR 0x27] @ ''Apple'' @ [CHR 0x27]
            @ ''})-[:ACQUIRED]->(target) RETURN target.name'')"
proof -
  from template_precedence
    [of "''What companies did Apple acquire? Show company acquisitions''"
        "\<lparr>confidence_threshold = 0.7, relation_types = [], llm_mode = ''api''\<rparr>"
        "\<lambda>prompt. Inr ''MATCH (n) RETURN n''" True]
    both_match_contains
  have "query_to_cypher \<lparr>confidence_threshold = 0.7, relation_types = [], llm_mode = ''api''\<rparr>
      (\<lambda>prompt. Inr ''MATCH (n) RETURN n'')
      ''What companies did Apple acquire? Show company acquisitions'' True =
     Some company_acquisitions_query"
    by blast
  with both_match_rule show ?thesis by blast
qed


section \<open>Query execution\<close>

text \<open>
  Claim C9. For every driver, query and parameter mapping, \<open>execute_query\<close> returns rows
  and lets no exception out. When the query gives no rows the result is the empty
  list, with no error logged. When the session cannot be opened, or the query is
  refused or fails, the error is logged and the result is the empty list.
\<close>

theorem execute_query_never_raises:
  "(\<exists>records. fst (execute_query d cypher_query params) = Inr records)
   \<and> (open_session d = None
        \<and> run d cypher_query (case params of None \<Rightarrow> Map.empty | Some p \<Rightarrow> p) = Inr [] \<longrightarrow>
      execute_query d cypher_query params = (Inr [], [LogInfo ''Query executed'']))
   \<and> (open_session d = None
        \<and> run d cypher_query (case params of None \<Rightarrow> Map.empty | Some p \<Rightarrow> p) = Inl x \<longrightarrow>
      execute_query d cypher_query params =
        (Inr [], [LogError (''Query execution failed: '' @ str_exn x)]))
   \<and> (open_session d = Some x \<longrightarrow>
      execute_query d cypher_query params =
        (Inr [], [LogError (''Query execution failed: '' @ str_exn x)]))"
  by (auto simp: execute_query_def Let_def split: option.splits sum.splits)

lemma default_query_term: "str_in ''$term'' default_query"
  by code_simp

lemma acquisitions_no_term: "\<not> str_in ''$term'' company_acquisitions_query"
  by code_simp

theorem execute_query_never_raises_witness:
  "execute_query (checking_driver []) company_acquisitions_query None =
     (Inr [], [LogInfo ''Query executed''])
   \<and> execute_query (checking_driver [[(''source'', ''Apple'')]]) default_query None =
     (Inr [], [LogError ''Query execution failed: Expected parameter(s): term''])
   \<and> execute_query \<lparr>open_session = Some (DriverError ''connection refused''),
                     run = (\<lambda>cypher params. Inr [])\<rparr> default_query None =
     (Inr [], [LogError ''Query execution failed: connection refused''])"
proof -
  have zero: "open_session (checking_driver []) = None
      \<and> run (checking_driver []) company_acquisitions_query
          (case None of None \<Rightarrow> Map.empty | Some p \<Rightarrow> p) = Inr []"
    by (simp add: checking_driver_def acquisitions_no_term)
  have bad: "open_session (checking_driver [[(''source'', ''Apple'')]]) = None
      \<and> run (checking_driver [[(''source'', ''Apple'')]]) default_query
          (case None of None \<Rightarrow> Map.empty | Some p \<Rightarrow> p) =
        Inl (DriverError ''Expected parameter(s): term'')"
    by (simp add: checking_driver_def default_query_term)
  have closed: "open_session \<lparr>open_session = Some (DriverError ''connection refused''),
                     run = (\<lambda>cypher params. Inr [])\<rparr> = Some (DriverError ''connection refused'')"
    by simp
  from execute_query_never_raises [of "checking_driver []" company_acquisitions_query None] zero
  have 1: "execute_query (checking_driver []) company_acquisitions_query None =
     (Inr [], [LogInfo ''Query executed''])"
    by blast
  from execute_query_never_raises [of "checking_driver [[(''source'', ''Apple'')]]" default_query None
      "DriverError ''Expected parameter(s): term''"] bad
  have 2: "execute_query (checking_driver [[(''source'', ''Apple'')]]) default_query None =
     (Inr [], [LogError (''Query execution failed: '' @ str_exn (DriverError ''Expected parameter(s): term''))])"
    by blast
  from execute_query_never_raises [of "\<lparr>open_session = Some (DriverError ''connection refused''),
                     run = (\<lambda>cypher params. Inr [])\<rparr>" default_query None
      "DriverError ''connection refused''"] closed
  have 3: "execute_query \<lparr>open_session = Some (DriverError ''connection refused''),
                     run = (\<lambda>cypher params. Inr [])\<rparr> default_query None =
     (Inr [], [LogError (''Query execution failed: '' @ str_exn (DriverError ''connection refused''))])"
    by blast
  from 1 2 3 show ?thesis by simp
qed

lemma fallback_translation:
  "query_to_cypher cfg chat ''tell me about apple'' False = Some default_query"
  by (simp add: query_to_cypher_def) code_simp


lemma default_query_not_empty: "default_query \<noteq> []"
  by (simp add: default_query_def block_def)

lemma query_to_cypher_fallback:
  assumes "first_key_contained query_templates (strip (lower question)) = None"
    and "first_rule patterns (lower question) = None"
  shows "query_to_cypher cfg chat question False = Some default_query"
  using assms by (simp add: query_to_cypher_def rule_based_conversion_def)

lemma ask_question_cypher:
  assumes "query_to_cypher cfg chat question False = Some cypher" and "cypher \<noteq> []"
  shows "ask_question cfg chat d question =
     (fst (execute_query d cypher None),
      [LogInfo (''Processing question: '' @ question), LogInfo (''Generated Cypher: '' @ cypher)]
      @ snd (execute_query d cypher None))"
  using assms by (simp add: ask_question_def split: prod.splits)

lemma execute_query_no_parameters:
  "execute_query d cypher None = execute_query d cypher (Some Map.empty)"
  by (simp add: execute_query_def)

lemma execute_default_query_refused:
  "execute_query (checking_driver records) default_query None =
     (Inr [], [LogError ''Query execution failed: Expected parameter(s): term''])"
  by (simp add: execute_query_def checking_driver_def default_query_term)

lemma ask_question_unmatched:
  assumes "first_key_contained query_templates (strip (lower question)) = None"
    and "first_rule patterns (lower question) = None"
  shows "fst (ask_question cfg chat (checking_driver records) question) = Inr []"
  using ask_question_cypher [OF query_to_cypher_fallback [OF assms] default_query_not_empty]
  by (simp add: execute_default_query_refused)

text \<open>
  Claim C3, at the question "tell me about apple", which contains no template phrase
  and matches no rule. The translation is the default query, which filters on the
  parameter \<open>$term\<close>. \<open>ask_question\<close> hands the query to \<open>execute_query\<close> without
  parameters, so the mapping that reaches the store is empty and the text of the
  question is not in it. A store that refuses a query with an unbound parameter fails
  the query, and the answer is the empty list whatever rows the graph holds.
\<close>

theorem ask_question_fallback_unbound:
  "query_to_cypher cfg chat ''tell me about apple'' False = Some default_query
   \<and> str_in ''$term'' default_query
   \<and> ask_question cfg chat d ''tell me about apple'' =
       (fst (execute_query d default_query (Some Map.empty)),
        [LogInfo ''Processing question: tell me about apple'',
         LogInfo (''Generated Cypher: '' @ default_query)]
        @ snd (execute_query d default_query (Some Map.empty)))
   \<and> ask_question cfg chat (checking_driver records) ''tell me about apple'' =
       (Inr [],
        [LogInfo ''Processing question: tell me about apple'',
         LogInfo (''Generated Cypher: '' @ default_query),
         LogError ''Query execution failed: Expected parameter(s): term''])"
proof -
  note ask = ask_question_cypher [OF fallback_translation default_query_not_empty]
  have "ask_question cfg chat d ''tell me about apple'' =
       (fst (execute_query d default_query (Some Map.empty)),
        [LogInfo ''Processing question: tell me about apple'',
         LogInfo (''Generated Cypher: '' @ default_query)]
        @ snd (execute_query d default_query (Some Map.empty)))"
    by (simp only: ask execute_query_no_parameters) simp
  moreover have "ask_question cfg chat (checking_driver records) ''tell me about apple'' =
       (Inr [],
        [LogInfo ''Processing question: tell me about apple'',
         LogInfo (''Generated Cypher: '' @ default_query),
         LogError ''Query execution failed: Expected parameter(s): term''])"
    by (simp only: ask execute_default_query_refused) simp
  ultimately show ?thesis
    using fallback_translation default_query_term by blast
qed

end
